theory Spec2Isabelle
  imports Complex_Main "HOL-Library.Sublist" "HOL-Library.Log_Nat"
begin

section \<open>Text\<close>

text \<open>
  The analyser works on Python \<open>str\<close> values: sequences of code points obtained by decoding a
  file as UTF-8 with \<open>errors="ignore"\<close>. A text is modelled as a \<^typ>\<open>string\<close> whose
  characters stand for the code points below U+0100 (ASCII and the Latin-1 supplement);
  \<open>length\<close> therefore counts code points, as Python's \<open>len\<close> does. The character classes
  below are those of CPython 3 for that range: \<open>str.isspace\<close> (which is also the regular
  expression class \<open>\s\<close>), the class \<open>\w\<close>, and \<open>str.lower\<close>.
\<close>

definition code :: "char \<Rightarrow> nat" where
  "code c = of_char c"

definition isspace :: "char \<Rightarrow> bool" where
  "isspace c = (let n = code c in
     (9 \<le> n \<and> n \<le> 13) \<or> (28 \<le> n \<and> n \<le> 32) \<or> n = 133 \<or> n = 160)"

definition isword :: "char \<Rightarrow> bool" where
  "isword c = (let n = code c in
     (48 \<le> n \<and> n \<le> 57) \<or> (65 \<le> n \<and> n \<le> 90) \<or> n = 95 \<or> (97 \<le> n \<and> n \<le> 122) \<or>
     n = 170 \<or> n = 178 \<or> n = 179 \<or> n = 181 \<or> n = 185 \<or> n = 186 \<or>
     (188 \<le> n \<and> n \<le> 190) \<or> (192 \<le> n \<and> n \<le> 214) \<or> (216 \<le> n \<and> n \<le> 246) \<or> 248 \<le> n)"

definition lower_char :: "char \<Rightarrow> char" where
  "lower_char c = (let n = code c in
     if (65 \<le> n \<and> n \<le> 90) \<or> (192 \<le> n \<and> n \<le> 214) \<or> (216 \<le> n \<and> n \<le> 222)
     then char_of (n + 32) else c)"

definition lower :: "string \<Rightarrow> string" where
  "lower s = map lower_char s"

definition newline :: char where
  "newline = CHR 0x0A"

definition strip :: "string \<Rightarrow> string" where
  "strip s = rev (dropWhile isspace (rev (dropWhile isspace s)))"

definition rstrip_newline :: "string \<Rightarrow> string" where
  "rstrip_newline s = rev (dropWhile (\<lambda>c. c = newline) (rev s))"

definition startswith :: "string \<Rightarrow> string \<Rightarrow> bool" where
  "startswith s p = (take (length p) s = p)"

definition endswith :: "string \<Rightarrow> string \<Rightarrow> bool" where
  "endswith s e = (length e \<le> length s \<and> drop (length s - length e) s = e)"

text \<open>
  Opening a file in text mode with the default \<open>newline=None\<close> translates \<open>\r\n\<close> and a
  lone \<open>\r\<close> to \<open>\n\<close> before the program sees the text.
\<close>

fun universal_newlines :: "string \<Rightarrow> string" where
  "universal_newlines [] = []"
| "universal_newlines [c] = (if c = CHR 0x0D then [newline] else [c])"
| "universal_newlines (c # d # cs) =
     (if c = CHR 0x0D then
        (if d = newline then newline # universal_newlines cs
         else newline # universal_newlines (d # cs))
      else c # universal_newlines (d # cs))"

text \<open>
  \<open>f.readlines()\<close> and \<open>for line in f\<close>: the lines of the text, each with its terminating
  \<open>\n\<close>; a last line without terminator is kept as it is.
\<close>

fun readlines_acc :: "string \<Rightarrow> string \<Rightarrow> string list" where
  "readlines_acc acc [] = (if acc = [] then [] else [rev acc])"
| "readlines_acc acc (c # cs) =
     (if c = newline then rev (c # acc) # readlines_acc [] cs
      else readlines_acc (c # acc) cs)"

definition readlines :: "string \<Rightarrow> string list" where
  "readlines text = readlines_acc [] text"

text \<open>
  \<open>str.splitlines()\<close>: splits at every line boundary that Python knows (not only \<open>\n\<close>: also
  \<open>\r\<close>, \<open>\r\n\<close>, vertical tab, form feed, the file, group and record separators and
  NEL), and drops the boundaries.
\<close>

definition is_linebreak :: "char \<Rightarrow> bool" where
  "is_linebreak c = (let n = code c in (10 \<le> n \<and> n \<le> 13) \<or> (28 \<le> n \<and> n \<le> 30) \<or> n = 133)"

fun splitlines_acc :: "string \<Rightarrow> string \<Rightarrow> string list" where
  "splitlines_acc acc [] = (if acc = [] then [] else [rev acc])"
| "splitlines_acc acc [c] = (if is_linebreak c then [rev acc] else [rev (c # acc)])"
| "splitlines_acc acc (c # d # cs) =
     (if c = CHR 0x0D \<and> d = newline then rev acc # splitlines_acc [] cs
      else if is_linebreak c then rev acc # splitlines_acc [] (d # cs)
      else splitlines_acc (c # acc) (d # cs))"

definition splitlines :: "string \<Rightarrow> string list" where
  "splitlines text = splitlines_acc [] text"

section \<open>Regular expressions\<close>

text \<open>
  Python's \<open>re\<close> is a backtracking matcher. The fragment the analyser uses has literals,
  the classes \<open>\s\<close>, \<open>\w\<close>, \<open>.\<close> and negated sets, concatenation, ordered alternation, the
  greedy \<open>?\<close>, the quantifiers \<open>*\<close>, \<open>+\<close> and \<open>*?\<close> on single character classes only, and the
  assertions \<open>^\<close> and \<open>\b\<close>. A cursor is a position in the subject: the character before it
  (if any) and the text from it on. The matcher returns the cursors at which a match
  starting at the given cursor can end, in the order in which backtracking tries them;
  the first one is the match that \<open>re\<close> reports.
\<close>

datatype cclass = Space | Word | Dot | NoneOf string

datatype regex =
    Lit string
  | Cls cclass
  | Seq regex regex
  | Alt regex regex
  | Opt regex
  | Star cclass
  | Plus cclass
  | LazyStar cclass
  | Bol
  | WordB

record re_flags =
  ignorecase :: bool
  multiline :: bool
  dotall :: bool

definition no_flags :: re_flags where
  "no_flags = \<lparr>ignorecase = False, multiline = False, dotall = False\<rparr>"

definition IGNORECASE :: re_flags where
  "IGNORECASE = \<lparr>ignorecase = True, multiline = False, dotall = False\<rparr>"

definition MULTILINE :: re_flags where
  "MULTILINE = \<lparr>ignorecase = False, multiline = True, dotall = False\<rparr>"

definition MULTILINE_DOTALL :: re_flags where
  "MULTILINE_DOTALL = \<lparr>ignorecase = False, multiline = True, dotall = True\<rparr>"

type_synonym cursor = "char option \<times> string"

definition char_eq :: "re_flags \<Rightarrow> char \<Rightarrow> char \<Rightarrow> bool" where
  "char_eq f p c = (if ignorecase f then lower_char p = lower_char c else p = c)"

fun in_class :: "re_flags \<Rightarrow> cclass \<Rightarrow> char \<Rightarrow> bool" where
  "in_class f Space c = isspace c"
| "in_class f Word c = isword c"
| "in_class f Dot c = (dotall f \<or> c \<noteq> newline)"
| "in_class f (NoneOf cs) c = (c \<notin> set cs)"

fun match_lit :: "re_flags \<Rightarrow> string \<Rightarrow> cursor \<Rightarrow> cursor list" where
  "match_lit f [] cur = [cur]"
| "match_lit f (p # ps) (prev, []) = []"
| "match_lit f (p # ps) (prev, c # cs) =
     (if char_eq f p c then match_lit f ps (Some c, cs) else [])"

text \<open>The cursors after zero, one, ... characters of the class, shortest run first.\<close>

fun class_run :: "re_flags \<Rightarrow> cclass \<Rightarrow> cursor \<Rightarrow> cursor list" where
  "class_run f k (prev, []) = [(prev, [])]"
| "class_run f k (prev, c # cs) =
     (prev, c # cs) # (if in_class f k c then class_run f k (Some c, cs) else [])"

definition at_line_start :: "re_flags \<Rightarrow> cursor \<Rightarrow> bool" where
  "at_line_start f cur =
     (case fst cur of None \<Rightarrow> True | Some c \<Rightarrow> multiline f \<and> c = newline)"

definition at_word_boundary :: "cursor \<Rightarrow> bool" where
  "at_word_boundary cur =
     ((case fst cur of None \<Rightarrow> False | Some c \<Rightarrow> isword c) \<noteq>
      (case snd cur of [] \<Rightarrow> False | c # _ \<Rightarrow> isword c))"

primrec rx :: "re_flags \<Rightarrow> regex \<Rightarrow> cursor \<Rightarrow> cursor list" where
  "rx f (Lit s) = (\<lambda>cur. match_lit f s cur)"
| "rx f (Cls k) = (\<lambda>cur. case snd cur of [] \<Rightarrow> []
                          | c # cs \<Rightarrow> if in_class f k c then [(Some c, cs)] else [])"
| "rx f (Seq a b) = (\<lambda>cur. concat (map (rx f b) (rx f a cur)))"
| "rx f (Alt a b) = (\<lambda>cur. rx f a cur @ rx f b cur)"
| "rx f (Opt a) = (\<lambda>cur. rx f a cur @ [cur])"
| "rx f (Star k) = (\<lambda>cur. rev (class_run f k cur))"
| "rx f (Plus k) = (\<lambda>cur. rev (tl (class_run f k cur)))"
| "rx f (LazyStar k) = (\<lambda>cur. class_run f k cur)"
| "rx f Bol = (\<lambda>cur. if at_line_start f cur then [cur] else [])"
| "rx f WordB = (\<lambda>cur. if at_word_boundary cur then [cur] else [])"

definition seqs :: "regex list \<Rightarrow> regex" where
  "seqs rs = foldr Seq rs (Lit [])"

definition alts :: "regex \<Rightarrow> regex list \<Rightarrow> regex" where
  "alts r rs = foldl Alt r rs"

text \<open>\<open>re.match\<close>: a match at the start of the subject. \<open>re.search\<close>: at the first
  position where there is one.\<close>

definition re_match :: "re_flags \<Rightarrow> regex \<Rightarrow> string \<Rightarrow> bool" where
  "re_match f r s = (rx f r (None, s) \<noteq> [])"

fun search_from :: "re_flags \<Rightarrow> regex \<Rightarrow> char option \<Rightarrow> string \<Rightarrow> bool" where
  "search_from f r prev [] = (rx f r (prev, []) \<noteq> [])"
| "search_from f r prev (c # cs) =
     (rx f r (prev, c # cs) \<noteq> [] \<or> search_from f r (Some c) cs)"

definition re_search :: "re_flags \<Rightarrow> regex \<Rightarrow> string \<Rightarrow> bool" where
  "re_search f r s = search_from f r None s"

text \<open>
  \<open>findall\<close> scans from left to right; after a match it goes on at the end of that match.
  The scanner takes the matcher as a function from a cursor to the reported value and the
  end of the match; \<open>skip\<close> counts the characters still covered by the last match. (None of
  the patterns given to \<open>findall\<close> by the analyser can match the empty string.)
\<close>

fun scan_matches :: "(cursor \<Rightarrow> ('a \<times> cursor) option) \<Rightarrow> nat \<Rightarrow> char option \<Rightarrow> string \<Rightarrow> 'a list" where
  "scan_matches m skip prev [] =
     (if skip = 0 then (case m (prev, []) of None \<Rightarrow> [] | Some (a, e) \<Rightarrow> [a]) else [])"
| "scan_matches m skip prev (c # cs) =
     (if 0 < skip then scan_matches m (skip - 1) (Some c) cs
      else case m (prev, c # cs) of
             None \<Rightarrow> scan_matches m 0 (Some c) cs
           | Some (a, e) \<Rightarrow> a # scan_matches m (length cs - length (snd e)) (Some c) cs)"

definition first_match :: "re_flags \<Rightarrow> regex \<Rightarrow> cursor \<Rightarrow> (unit \<times> cursor) option" where
  "first_match f r cur = (case rx f r cur of [] \<Rightarrow> None | e # _ \<Rightarrow> Some ((), e))"

definition findall_count :: "re_flags \<Rightarrow> regex \<Rightarrow> string \<Rightarrow> nat" where
  "findall_count f r s = length (scan_matches (first_match f r) 0 None s)"

section \<open>metrics.py\<close>

subsection \<open>count_patterns\<close>

text \<open>The pattern \<open>r"\b" + re.escape(kw) + r"\b"\<close>.\<close>

definition keyword_pattern :: "string \<Rightarrow> regex" where
  "keyword_pattern kw = Seq WordB (Seq (Lit kw) WordB)"

fun count_patterns_loop :: "int \<Rightarrow> string list \<Rightarrow> string \<Rightarrow> int" where
  "count_patterns_loop count [] line = count"
| "count_patterns_loop count (kw # patterns) line =
     (if re_search no_flags (keyword_pattern kw) line
      then count_patterns_loop (count + 1) patterns line
      else count_patterns_loop count patterns line)"

definition count_patterns :: "string list \<Rightarrow> string \<Rightarrow> int" where
  "count_patterns patterns line = count_patterns_loop 0 patterns line"

definition decision_keywords :: "string list" where
  "decision_keywords =
     [''if'', ''elif'', ''else if'', ''for'', ''while'', ''case'', ''switch'',
      ''catch'', ''except'', ''&&'', ''||'', ''?'', ''and'', ''or'']"

subsection \<open>FileMetrics\<close>

text \<open>
  The dataclass \<open>FileMetrics\<close>. Python's \<open>int\<close> is unbounded: \<^typ>\<open>int\<close>. The two ratio
  properties return the quotient of two counts; \<open>true_div\<close> is that quotient as a rational
  number (Python returns the double nearest to it, and nothing is computed from these two
  ratios afterwards). Python's \<open>a / b\<close> raises \<open>ZeroDivisionError\<close> when \<open>b\<close> is zero; the
  model returns the exception as a value.
\<close>

datatype py_error = ZeroDivisionError

definition true_div :: "int \<Rightarrow> int \<Rightarrow> py_error + rat" where
  "true_div a b = (if b = 0 then Inl ZeroDivisionError else Inr (of_int a / of_int b))"

record FileMetrics =
  path :: string
  num_functions :: int
  num_classes :: int
  num_interfaces :: int
  cyclomatic_complexity :: int
  complexity_category :: string
  line_count :: int
  comment_count :: int
  long_line_count :: int
  mixed_indent :: bool
  language :: string
  additional_info :: "(string \<times> rat) list"

definition new_FileMetrics :: "string \<Rightarrow> FileMetrics" where
  "new_FileMetrics p =
     \<lparr>path = p, num_functions = 0, num_classes = 0, num_interfaces = 0,
      cyclomatic_complexity = 1, complexity_category = ''Simple'', line_count = 0,
      comment_count = 0, long_line_count = 0, mixed_indent = False,
      language = ''unknown'', additional_info = []\<rparr>"



subsection \<open>detect_language\<close>

text \<open>
  \<open>os.path.splitext(filename)[1]\<close> on a POSIX system: the extension starts at the last dot
  of the last path component, provided a character other than a dot precedes that dot in
  the component; otherwise the extension is empty.
\<close>

definition splitext_ext :: "string \<Rightarrow> string" where
  "splitext_ext p =
     (let r = takeWhile (\<lambda>c. c \<noteq> CHR ''/'') (rev p);
          e = takeWhile (\<lambda>c. c \<noteq> CHR ''.'') r
      in case dropWhile (\<lambda>c. c \<noteq> CHR ''.'') r of
           [] \<Rightarrow> []
         | d # stem \<Rightarrow> if list_ex (\<lambda>c. c \<noteq> CHR ''.'') stem then d # rev e else [])"

definition language_table :: "(string \<times> string) list" where
  "language_table =
     [(''.py'', ''python''), (''.js'', ''javascript''), (''.java'', ''java''),
      (''.cpp'', ''cpp''), (''.c'', ''c''), (''.cs'', ''csharp''),
      (''.ts'', ''typescript''), (''.rb'', ''ruby''), (''.go'', ''go'')]"

definition detect_language :: "string \<Rightarrow> string" where
  "detect_language filename =
     (case map_of language_table (lower (splitext_ext filename)) of
        None \<Rightarrow> ''unknown''
      | Some l \<Rightarrow> l)"

subsection \<open>analyse_file\<close>

text \<open>
  The file system: what \<open>open(path, "r", encoding="utf-8", errors="ignore")\<close> followed by a
  read gives for each path, either the exception raised or the decoded characters of the
  file. With \<open>errors="ignore"\<close> decoding raises nothing, so the text is there whenever the
  file can be opened and read.
\<close>

datatype io_error = FileNotFound | PermissionDenied | IsADirectory | OtherOSError

type_synonym filesystem = "string \<Rightarrow> io_error + string"

definition read_text :: "filesystem \<Rightarrow> string \<Rightarrow> io_error + string" where
  "read_text fs p = (case fs p of Inl e \<Rightarrow> Inl e | Inr chars \<Rightarrow> Inr (universal_newlines chars))"

definition function_patterns :: "regex list" where
  "function_patterns =
     [seqs [Bol, Star Space,
            Opt (alts (Lit ''def'')
                   [Lit ''function'', Lit ''func'',
                    seqs [Lit ''public'', Plus Space, Lit ''static''],
                    seqs [Lit ''private'', Plus Space, Lit ''static''],
                    Lit ''public'', Lit ''private'', Lit ''protected'',
                    Lit ''static'', Lit ''final'']),
            Star Space, Plus Word, Star Space, Lit ''('', Star Dot, Lit '')'']]"

definition class_patterns :: "regex list" where
  "class_patterns = [seqs [Bol, Star Space, Alt (Lit ''class'') (Lit ''struct''), WordB]]"

definition interface_patterns :: "regex list" where
  "interface_patterns = [seqs [Bol, Star Space, Lit ''interface'', WordB]]"

definition indent_pattern :: regex where
  "indent_pattern = Seq Bol (Plus Space)"

text \<open>\<open>for pattern in patterns: if pattern.match(line): counter += 1; break\<close> adds one
  when some pattern of the list matches, whichever it is.\<close>

definition any_pattern_matches :: "regex list \<Rightarrow> string \<Rightarrow> bool" where
  "any_pattern_matches patterns line = list_ex (\<lambda>r. re_match no_flags r line) patterns"

definition is_comment :: "string \<Rightarrow> bool" where
  "is_comment stripped =
     (startswith stripped ''#'' \<or> startswith stripped ''//'' \<or> startswith stripped ''/*'' \<or>
      startswith stripped ''*'' \<or> startswith stripped ''--'')"

text \<open>The state of the loop over the lines: the record under construction and the two
  local variables \<open>indent_char\<close> and \<open>complexity\<close>.\<close>

record scan_state =
  metrics :: FileMetrics
  indent_char :: "char option"
  complexity :: int

definition count_line :: "scan_state \<Rightarrow> scan_state" where
  "count_line st = st\<lparr>metrics := (metrics st)\<lparr>line_count := line_count (metrics st) + 1\<rparr>\<rparr>"

definition count_comment :: "string \<Rightarrow> scan_state \<Rightarrow> scan_state" where
  "count_comment line st =
     (if is_comment (strip line)
      then st\<lparr>metrics := (metrics st)\<lparr>comment_count := comment_count (metrics st) + 1\<rparr>\<rparr>
      else st)"

definition track_indent :: "string \<Rightarrow> scan_state \<Rightarrow> scan_state" where
  "track_indent line st =
     (if language (metrics st) = ''python'' \<and> re_match no_flags indent_pattern line then
        (case line of
           [] \<Rightarrow> st
         | current_char # _ \<Rightarrow>
             (case indent_char st of
                None \<Rightarrow> st\<lparr>indent_char := Some current_char\<rparr>
              | Some ic \<Rightarrow>
                  if current_char \<noteq> ic
                  then st\<lparr>metrics := (metrics st)\<lparr>mixed_indent := True\<rparr>\<rparr>
                  else st))
      else st)"

definition count_long_line :: "string \<Rightarrow> scan_state \<Rightarrow> scan_state" where
  "count_long_line line st =
     (if 79 < length (rstrip_newline line)
      then st\<lparr>metrics := (metrics st)\<lparr>long_line_count := long_line_count (metrics st) + 1\<rparr>\<rparr>
      else st)"

definition count_function :: "string \<Rightarrow> scan_state \<Rightarrow> scan_state" where
  "count_function line st =
     (if any_pattern_matches function_patterns line
      then st\<lparr>metrics := (metrics st)\<lparr>num_functions := num_functions (metrics st) + 1\<rparr>\<rparr>
      else st)"

definition count_class :: "string \<Rightarrow> scan_state \<Rightarrow> scan_state" where
  "count_class line st =
     (if any_pattern_matches class_patterns line
      then st\<lparr>metrics := (metrics st)\<lparr>num_classes := num_classes (metrics st) + 1\<rparr>\<rparr>
      else st)"

definition count_interface :: "string \<Rightarrow> scan_state \<Rightarrow> scan_state" where
  "count_interface line st =
     (if any_pattern_matches interface_patterns line
      then st\<lparr>metrics := (metrics st)\<lparr>num_interfaces := num_interfaces (metrics st) + 1\<rparr>\<rparr>
      else st)"

definition add_complexity :: "string \<Rightarrow> scan_state \<Rightarrow> scan_state" where
  "add_complexity line st =
     st\<lparr>complexity := complexity st + count_patterns decision_keywords line\<rparr>"

text \<open>The body of \<open>for line in lines\<close>, statement by statement.\<close>

definition scan_line :: "scan_state \<Rightarrow> string \<Rightarrow> scan_state" where
  "scan_line st line =
     add_complexity line
       (count_interface line
         (count_class line
           (count_function line
             (count_long_line line
               (track_indent line
                 (count_comment line
                   (count_line st)))))))"

definition categorise :: "int \<Rightarrow> string" where
  "categorise c =
     (if c \<le> 10 then ''Simple''
      else if c \<le> 20 then ''Moderate''
      else if c \<le> 50 then ''Complex''
      else ''Very High'')"

definition initial_state :: "string \<Rightarrow> scan_state" where
  "initial_state p =
     \<lparr>metrics = (new_FileMetrics p)\<lparr>language := detect_language p\<rparr>,
      indent_char = None, complexity = 1\<rparr>"

definition finish :: "scan_state \<Rightarrow> FileMetrics" where
  "finish st =
     (metrics st)\<lparr>cyclomatic_complexity := complexity st,
                  complexity_category := categorise (complexity st)\<rparr>"

definition analyse_text :: "string \<Rightarrow> string \<Rightarrow> FileMetrics" where
  "analyse_text p text = finish (foldl scan_line (initial_state p) (readlines text))"

definition analyse_file :: "filesystem \<Rightarrow> string \<Rightarrow> FileMetrics option" where
  "analyse_file fs p =
     (case read_text fs p of
        Inl e \<Rightarrow> None
      | Inr text \<Rightarrow> Some (analyse_text p text))"

subsection \<open>analyse_directory\<close>

text \<open>
  The directory tree that \<open>os.walk\<close> traverses: a directory lists the names of its
  non-directory entries and its subdirectories, in the order in which the operating system
  reports them. \<open>NotWalked\<close> is a directory that \<open>os.walk\<close> does not enter (it cannot be
  listed, or it is a symbolic link); \<open>os.walk\<close> reports no error for it.
\<close>

datatype dir_tree = Dir "string list" "(string \<times> dir_tree) list" | NotWalked

definition path_join :: "string \<Rightarrow> string \<Rightarrow> string" where
  "path_join a b =
     (if startswith b ''/'' then b
      else if a = [] \<or> endswith a ''/'' then a @ b
      else a @ ''/'' @ b)"

fun walk :: "string \<Rightarrow> dir_tree \<Rightarrow> (string \<times> string list) list" where
  "walk dirpath NotWalked = []"
| "walk dirpath (Dir files subdirs) =
     (dirpath, files) #
     concat (map (\<lambda>d. walk (path_join dirpath (fst d)) (snd d)) subdirs)"

definition skipped :: "string list option \<Rightarrow> string \<Rightarrow> bool" where
  "skipped extensions fname =
     (let lang = detect_language fname in
      case extensions of
        Some exts \<Rightarrow> \<not> list_ex (\<lambda>ext. endswith fname ext) exts
      | None \<Rightarrow> lang = ''unknown'')"

fun files_loop ::
  "filesystem \<Rightarrow> string list option \<Rightarrow> string \<Rightarrow> FileMetrics list \<Rightarrow> string list \<Rightarrow> FileMetrics list"
where
  "files_loop fs extensions rootdir results [] = results"
| "files_loop fs extensions rootdir results (fname # files) =
     (let file_path = path_join rootdir fname in
      if skipped extensions fname then files_loop fs extensions rootdir results files
      else case analyse_file fs file_path of
             None \<Rightarrow> files_loop fs extensions rootdir results files
           | Some m \<Rightarrow> files_loop fs extensions rootdir (results @ [m]) files)"

fun walk_loop ::
  "filesystem \<Rightarrow> string list option \<Rightarrow> FileMetrics list \<Rightarrow> (string \<times> string list) list \<Rightarrow> FileMetrics list"
where
  "walk_loop fs extensions results [] = results"
| "walk_loop fs extensions results ((rootdir, files) # rest) =
     walk_loop fs extensions (files_loop fs extensions rootdir results files) rest"

definition analyse_directory ::
  "filesystem \<Rightarrow> dir_tree \<Rightarrow> string \<Rightarrow> string list option \<Rightarrow> FileMetrics list" where
  "analyse_directory fs tree p extensions = walk_loop fs extensions [] (walk p tree)"

section \<open>principles.py\<close>

text \<open>
  The scores are Python floats, that is IEEE 754 doubles. A double is modelled by the
  rational number it stands for, and every operation by the exact operation followed by
  rounding to the nearest double, ties going to the even significand, as the hardware
  does. \<open>float_exponent x\<close> is the exponent \<open>e\<close> with \<open>2^e \<le> |x| < 2^(e+1)\<close>; a double has
  53 significant bits, so the doubles around \<open>x\<close> are the multiples of \<open>2^(e-52)\<close>. The
  exponent range is not modelled: leaving it takes a quotient above \<open>2^1023\<close> or below
  \<open>2^-1022\<close>, hence a count of that size.
\<close>

definition round_half_even :: "rat \<Rightarrow> int" where
  "round_half_even x =
     (let n = \<lfloor>x\<rfloor>; d = x - of_int n in
      if d < 1 / 2 then n
      else if 1 / 2 < d then n + 1
      else if even n then n else n + 1)"

definition float_exponent :: "rat \<Rightarrow> int" where
  "float_exponent x =
     (let a = \<bar>x\<bar> in
      if 1 \<le> a then int (floorlog 2 (nat \<lfloor>a\<rfloor>)) - 1
      else - int (floorlog 2 (nat (\<lceil>1 / a\<rceil> - 1))))"

definition to_double :: "rat \<Rightarrow> rat" where
  "to_double x =
     (if x = 0 then 0
      else let ulp = 2 powi (float_exponent x - 52)
           in of_int (round_half_even (x / ulp)) * ulp)"

text \<open>
  \<open>a / b\<close> on two integers is the double nearest to the quotient (CPython rounds the
  quotient of two integers correctly), or \<open>ZeroDivisionError\<close>. Subtraction and division
  of floats round their exact result. \<open>round(x, 3)\<close> takes the decimal with three digits
  after the point that is nearest to the value of the double \<open>x\<close> (a tie going to the even
  digit) and returns the double nearest to that decimal.
\<close>

definition float_div :: "int \<Rightarrow> int \<Rightarrow> py_error + rat" where
  "float_div a b = (case true_div a b of Inl e \<Rightarrow> Inl e | Inr q \<Rightarrow> Inr (to_double q))"

definition float_sub :: "rat \<Rightarrow> rat \<Rightarrow> rat" where
  "float_sub x y = to_double (x - y)"

definition float_quotient :: "rat \<Rightarrow> rat \<Rightarrow> rat" where
  "float_quotient x y = to_double (x / y)"

definition round3 :: "rat \<Rightarrow> rat" where
  "round3 x = to_double (of_int (round_half_even (x * 1000)) / 1000)"

text \<open>\<open>findall\<close> for a pattern with one group returns the text of the group for each match.
  The pattern is given as the part before the group, the group and the part after it.\<close>

definition first_group_match ::
  "re_flags \<Rightarrow> regex \<Rightarrow> regex \<Rightarrow> regex \<Rightarrow> cursor \<Rightarrow> (string \<times> cursor) option" where
  "first_group_match f pre grp post cur =
     (case concat (map (\<lambda>g0. concat (map (\<lambda>g1.
              map (\<lambda>e. (take (length (snd g0) - length (snd g1)) (snd g0), e)) (rx f post g1))
            (rx f grp g0))) (rx f pre cur)) of
        [] \<Rightarrow> None
      | m # _ \<Rightarrow> Some m)"

definition findall_group :: "re_flags \<Rightarrow> regex \<Rightarrow> regex \<Rightarrow> regex \<Rightarrow> string \<Rightarrow> string list" where
  "findall_group f pre grp post s = scan_matches (first_group_match f pre grp post) 0 None s"

subsection \<open>evaluate_solid\<close>

definition inheritance_pattern :: regex where
  "inheritance_pattern =
     seqs [Lit ''class'', Plus Space, Plus Word, Star Space,
           Alt (Lit ''extends'') (Lit '':''), Plus Space, Plus Word]"

definition interface_head :: regex where
  "interface_head = seqs [Lit ''interface'', Plus Space, Plus Word, Star Space, Lit ''{'']"

definition interface_body :: regex where
  "interface_body = Star (NoneOf ''}'')"

definition interface_close :: regex where
  "interface_close = Lit ''}''"

definition method_pattern :: regex where
  "method_pattern =
     seqs [WordB, Plus Word, Star Space, Lit ''('', LazyStar Dot, Lit '')'', Star Space, Lit '';'']"

definition import_pattern :: regex where
  "import_pattern =
     seqs [Star Space, Alt (Alt (Lit ''import'') (Lit ''using'')) (Lit ''require''), WordB]"

definition abstraction_pattern :: regex where
  "abstraction_pattern = Alt (Lit ''interface'') (Lit ''abstract'')"

record solid_totals =
  total_classes :: int
  total_functions :: int
  classes_with_inheritance :: int
  total_interfaces :: int
  interface_methods :: int
  uses_abstract_in_imports :: int

definition solid_start :: solid_totals where
  "solid_start =
     \<lparr>total_classes = 0, total_functions = 0, classes_with_inheritance = 0,
      total_interfaces = 0, interface_methods = 0, uses_abstract_in_imports = 0\<rparr>"

text \<open>The text of a file as the evaluator re-reads it: empty when the read fails.\<close>

definition text_or_empty :: "filesystem \<Rightarrow> string \<Rightarrow> string" where
  "text_or_empty fs p = (case read_text fs p of Inl e \<Rightarrow> [] | Inr text \<Rightarrow> text)"

definition count_inheritance :: "string \<Rightarrow> int" where
  "count_inheritance text = int (findall_count IGNORECASE inheritance_pattern text)"

definition count_interface_methods :: "string \<Rightarrow> int" where
  "count_interface_methods text =
     (\<Sum>body \<leftarrow> findall_group MULTILINE_DOTALL interface_head interface_body interface_close text.
        int (findall_count no_flags method_pattern body))"

definition is_import_line :: "string \<Rightarrow> bool" where
  "is_import_line line = re_match no_flags import_pattern line"

definition count_abstract_imports :: "string \<Rightarrow> int" where
  "count_abstract_imports text =
     int (length (filter (\<lambda>line. is_import_line line \<and>
                                  re_search IGNORECASE abstraction_pattern line)
                    (splitlines text)))"

definition solid_step :: "filesystem \<Rightarrow> solid_totals \<Rightarrow> FileMetrics \<Rightarrow> solid_totals" where
  "solid_step fs t fm =
     (let text = text_or_empty fs (path fm) in
      \<lparr>total_classes = total_classes t + num_classes fm,
       total_functions = total_functions t + num_functions fm,
       classes_with_inheritance = classes_with_inheritance t + count_inheritance text,
       total_interfaces = total_interfaces t + num_interfaces fm,
       interface_methods = interface_methods t + count_interface_methods text,
       uses_abstract_in_imports = uses_abstract_in_imports t + count_abstract_imports text\<rparr>)"

text \<open>The second loop: the import-like lines of every file that can be opened, the lines
  being those of the file iterator.\<close>

definition imports_step :: "filesystem \<Rightarrow> int \<Rightarrow> FileMetrics \<Rightarrow> int" where
  "imports_step fs total_imports fm =
     (case read_text fs (path fm) of
        Inl e \<Rightarrow> total_imports
      | Inr text \<Rightarrow> total_imports + int (length (filter is_import_line (readlines text))))"

text \<open>In \<open>max(0, avg - 5) / 10\<close> and \<open>1.0 - ...\<close> the divisor 10 is a literal, so only the
  divisions of two counts can raise.\<close>

definition srp_score :: "solid_totals \<Rightarrow> py_error + rat" where
  "srp_score t =
     (if 0 < total_classes t then
        (case (if total_classes t \<noteq> 0
               then float_div (total_functions t) (total_classes t) else Inr 0) of
           Inl e \<Rightarrow> Inl e
         | Inr avg_methods_per_class \<Rightarrow>
             Inr (max 0 (float_sub 1
                    (float_quotient (max 0 (float_sub avg_methods_per_class 5)) 10))))
      else Inr 1)"

definition ocp_score :: "solid_totals \<Rightarrow> py_error + rat" where
  "ocp_score t =
     (if 0 < total_classes t then
        (if total_classes t \<noteq> 0 then
           (case float_div (classes_with_inheritance t) (total_classes t) of
              Inl e \<Rightarrow> Inl e
            | Inr q \<Rightarrow> Inr (min 1 q))
         else Inr 0)
      else Inr 1)"

definition isp_score :: "solid_totals \<Rightarrow> py_error + rat" where
  "isp_score t =
     (if 0 < total_interfaces t then
        (case float_div (interface_methods t) (total_interfaces t) of
           Inl e \<Rightarrow> Inl e
         | Inr avg_interface_methods \<Rightarrow>
             Inr (max 0 (float_sub 1
                    (float_quotient (max 0 (float_sub avg_interface_methods 5)) 10))))
      else Inr 1)"

definition dip_score :: "solid_totals \<Rightarrow> int \<Rightarrow> py_error + rat" where
  "dip_score t total_imports =
     (if total_imports \<noteq> 0 then float_div (uses_abstract_in_imports t) total_imports
      else Inr 0)"

record solid_scores =
  single_responsibility :: rat
  open_closed :: rat
  interface_segregation :: rat
  dependency_inversion :: rat
  liskov_substitution :: rat

definition evaluate_solid :: "filesystem \<Rightarrow> FileMetrics list \<Rightarrow> py_error + solid_scores" where
  "evaluate_solid fs files =
     (let t = foldl (solid_step fs) solid_start files in
      case srp_score t of Inl e \<Rightarrow> Inl e | Inr srp \<Rightarrow>
      case ocp_score t of Inl e \<Rightarrow> Inl e | Inr ocp \<Rightarrow>
      case isp_score t of Inl e \<Rightarrow> Inl e | Inr isp \<Rightarrow>
      let total_imports = foldl (imports_step fs) 0 files in
      case dip_score t total_imports of Inl e \<Rightarrow> Inl e | Inr dip \<Rightarrow>
      Inr \<lparr>single_responsibility = round3 srp,
           open_closed = round3 ocp,
           interface_segregation = round3 isp,
           dependency_inversion = round3 dip,
           liskov_substitution = 1 / 2\<rparr>)"

subsection \<open>evaluate_functional\<close>

definition assignment_pattern :: regex where
  "assignment_pattern = seqs [Bol, Star (NoneOf [CHR ''#'', newline]), Lit ''='']"

definition print_pattern :: regex where
  "print_pattern =
     seqs [WordB,
           Alt (Alt (Lit ''print'') (Lit ''console.log'')) (Lit ''System.out.println''),
           WordB]"

definition lambda_pattern :: regex where
  "lambda_pattern = Alt (seqs [WordB, Lit ''lambda'', WordB]) (Lit ''=>'')"

definition hof_pattern :: regex where
  "hof_pattern =
     seqs [WordB,
           alts (Lit ''map'') [Lit ''filter'', Lit ''reduce'', Lit ''fold'', Lit ''forEach''],
           WordB]"

definition immutable_keywords :: regex where
  "immutable_keywords =
     seqs [WordB, alts (Lit ''const'') [Lit ''final'', Lit ''immutable''], WordB]"

record functional_totals =
  pure_functions :: int
  higher_order_count :: int
  immutable_count :: int
  total_assignments :: int

definition functional_start :: functional_totals where
  "functional_start =
     \<lparr>pure_functions = 0, higher_order_count = 0, immutable_count = 0, total_assignments = 0\<rparr>"

definition count_assignments :: "string \<Rightarrow> int" where
  "count_assignments text = int (findall_count MULTILINE assignment_pattern text)"

definition has_print :: "string \<Rightarrow> bool" where
  "has_print text = re_search no_flags print_pattern text"

definition functional_step ::
  "filesystem \<Rightarrow> functional_totals \<Rightarrow> FileMetrics \<Rightarrow> functional_totals" where
  "functional_step fs t fm =
     (case read_text fs (path fm) of
        Inl e \<Rightarrow> t
      | Inr text \<Rightarrow>
          (let assignments = total_assignments t + count_assignments text;
               pure = (if 0 < num_functions fm \<and> assignments = 0 \<and> \<not> has_print text
                       then pure_functions t + num_functions fm
                       else pure_functions t)
           in \<lparr>pure_functions = pure,
               higher_order_count = higher_order_count t
                  + int (findall_count no_flags lambda_pattern text)
                  + int (findall_count no_flags hof_pattern text),
               immutable_count = immutable_count t
                  + int (findall_count IGNORECASE immutable_keywords text),
               total_assignments = assignments\<rparr>))"

definition purity_score :: "int \<Rightarrow> functional_totals \<Rightarrow> py_error + rat" where
  "purity_score total_fns t =
     (if total_fns \<noteq> 0 then float_div (pure_functions t) total_fns else Inr 0)"

definition hof_score :: "int \<Rightarrow> functional_totals \<Rightarrow> py_error + rat" where
  "hof_score total_fns t =
     (case float_div (higher_order_count t) (max 1 total_fns) of
        Inl e \<Rightarrow> Inl e
      | Inr q \<Rightarrow> Inr (min 1 q))"

definition immutability_score :: "functional_totals \<Rightarrow> py_error + rat" where
  "immutability_score t =
     (case float_div (immutable_count t) (max 1 (total_assignments t + 1)) of
        Inl e \<Rightarrow> Inl e
      | Inr q \<Rightarrow> Inr (min 1 q))"

record functional_scores =
  purity :: rat
  higher_order_usage :: rat
  immutability :: rat

definition evaluate_functional ::
  "filesystem \<Rightarrow> FileMetrics list \<Rightarrow> py_error + functional_scores" where
  "evaluate_functional fs files =
     (let total_fns = sum_list (map num_functions files);
          t = foldl (functional_step fs) functional_start files in
      case purity_score total_fns t of Inl e \<Rightarrow> Inl e | Inr pur \<Rightarrow>
      case hof_score total_fns t of Inl e \<Rightarrow> Inl e | Inr hof \<Rightarrow>
      case immutability_score t of Inl e \<Rightarrow> Inl e | Inr imm \<Rightarrow>
      Inr \<lparr>purity = round3 pur,
           higher_order_usage = round3 hof,
           immutability = round3 imm\<rparr>)"

section \<open>Reference notions and sample inputs\<close>

text \<open>The four categories in increasing order of risk.\<close>

definition category_rank :: "string \<Rightarrow> nat" where
  "category_rank s =
     (if s = ''Simple'' then 0 else if s = ''Moderate'' then 1
      else if s = ''Complex'' then 2 else 3)"

text \<open>
  The increment of a line as the specification words it. A token occurs in a line as a
  whole token when the line has it as a substring that is not part of a longer word: where
  the token begins with a word character no word character precedes it, and where it ends
  with one none follows. The increment is the number of tokens of the list that occur so.
\<close>

definition prev_is_word :: "char option \<Rightarrow> bool" where
  "prev_is_word p = (case p of None \<Rightarrow> False | Some c \<Rightarrow> isword c)"

definition next_is_word :: "string \<Rightarrow> bool" where
  "next_is_word s = (case s of [] \<Rightarrow> False | c # _ \<Rightarrow> isword c)"

definition token_at :: "string \<Rightarrow> char option \<Rightarrow> string \<Rightarrow> bool" where
  "token_at kw prev s =
     (startswith s kw \<and>
      \<not> (next_is_word kw \<and> prev_is_word prev) \<and>
      \<not> (next_is_word (rev kw) \<and> next_is_word (drop (length kw) s)))"

fun occurs_from :: "string \<Rightarrow> char option \<Rightarrow> string \<Rightarrow> bool" where
  "occurs_from kw prev [] = token_at kw prev []"
| "occurs_from kw prev (c # cs) = (token_at kw prev (c # cs) \<or> occurs_from kw (Some c) cs)"

definition occurs_as_token :: "string \<Rightarrow> string \<Rightarrow> bool" where
  "occurs_as_token kw line = occurs_from kw None line"

definition token_increment :: "string list \<Rightarrow> string \<Rightarrow> int" where
  "token_increment kws line = int (length (filter (\<lambda>kw. occurs_as_token kw line) kws))"

text \<open>
  The filtering policy of the walker as the specification words it: with an explicit list
  a file name qualifies when one of the listed strings is a suffix of it, without a list it
  qualifies when the classifier knows its language.
\<close>

definition included :: "string list option \<Rightarrow> string \<Rightarrow> bool" where
  "included extensions fname =
     (case extensions of
        Some exts \<Rightarrow> (\<exists>ext \<in> set exts. suffix ext fname)
      | None \<Rightarrow> detect_language fname \<noteq> ''unknown'')"

text \<open>The paths of the qualifying files below a directory, in traversal order.\<close>

definition candidates :: "dir_tree \<Rightarrow> string \<Rightarrow> string list option \<Rightarrow> string list" where
  "candidates tree p extensions =
     concat (map (\<lambda>(d, files). map (path_join d) (filter (included extensions) files))
                 (walk p tree))"

text \<open>
  The purity rule as the specification words it. A text contains a print or log call when
  one of the names \<open>print\<close>, \<open>console.log\<close>, \<open>System.out.println\<close> occurs in it as a whole
  word. An assignment-like line is a line (the text being cut at every \<open>\n\<close>) that has an
  \<open>=\<close> before any \<open>#\<close>. The cumulative assignment count at the moment the \<open>i\<close>-th file of
  the run is processed is the number of assignment-like lines in the files up to and
  including it that can be re-read. The functions of the \<open>i\<close>-th file count as pure when
  the file can be re-read, that cumulative count is zero and its text has no print or log
  call.
\<close>

definition print_calls :: "string list" where
  "print_calls = [''print'', ''console.log'', ''System.out.println'']"

definition calls_print :: "string \<Rightarrow> bool" where
  "calls_print text = list_ex (\<lambda>name. occurs_as_token name text) print_calls"

definition assignment_like :: "string \<Rightarrow> bool" where
  "assignment_like line = (CHR ''='' \<in> set (takeWhile (\<lambda>c. c \<noteq> CHR ''#'') line))"

fun text_lines :: "string \<Rightarrow> string list" where
  "text_lines [] = [[]]"
| "text_lines (c # cs) =
     (if c = newline then [] # text_lines cs
      else (case text_lines cs of [] \<Rightarrow> [[c]] | l # ls \<Rightarrow> (c # l) # ls))"

definition assignment_line_count :: "string \<Rightarrow> nat" where
  "assignment_line_count text = length (filter assignment_like (text_lines text))"

definition assignments_so_far :: "filesystem \<Rightarrow> FileMetrics list \<Rightarrow> nat \<Rightarrow> int" where
  "assignments_so_far fs files i =
     sum_list (map (\<lambda>fm. case read_text fs (path fm) of
                            Inl e \<Rightarrow> 0
                          | Inr text \<Rightarrow> int (assignment_line_count text))
                   (take (Suc i) files))"

definition counted_pure :: "filesystem \<Rightarrow> FileMetrics list \<Rightarrow> nat \<Rightarrow> bool" where
  "counted_pure fs files i =
     (case read_text fs (path (files ! i)) of
        Inl e \<Rightarrow> False
      | Inr text \<Rightarrow> assignments_so_far fs files i = 0 \<and> \<not> calls_print text)"

definition pure_function_count :: "filesystem \<Rightarrow> FileMetrics list \<Rightarrow> int" where
  "pure_function_count fs files =
     sum_list (map (\<lambda>i. if counted_pure fs files i \<and> 0 < num_functions (files ! i)
                         then num_functions (files ! i) else 0)
                   [0..<length files])"

text \<open>Notions used in the proofs about the assignment pattern: the characters that
  \<open>[^#\n]\<close> accepts, the ends of the matches of \<open>[^#\n]*=\<close> from a position, and the
  positions at which \<open>^\<close> matches in multi-line mode.\<close>

definition in_assignment_prefix :: "char \<Rightarrow> bool" where
  "in_assignment_prefix c = (c \<noteq> CHR ''#'' \<and> c \<noteq> newline)"

fun equals_ends :: "char option \<Rightarrow> string \<Rightarrow> cursor list" where
  "equals_ends prev [] = []"
| "equals_ends prev (c # cs) =
     (if c = CHR ''='' then [(Some c, cs)] else []) @
     (if in_assignment_prefix c then equals_ends (Some c) cs else [])"

definition line_start :: "char option \<Rightarrow> bool" where
  "line_start prev = (case prev of None \<Rightarrow> True | Some c \<Rightarrow> c = newline)"

text \<open>A small file system and some directories over it, for the concrete runs below.\<close>

definition sample_fs :: filesystem where
  "sample_fs p =
     (if p = ''src/a.js'' then Inr ''if (a && b) {\<newline>  f(a);\<newline>}\<newline>''
      else if p = ''proj/a.py'' then Inr ''x = 1\<newline>''
      else if p = ''proj/b.txt'' then Inr ''notes\<newline>''
      else if p = ''proj/pure.py'' then Inr ''def f(x):\<newline>    return x\<newline>''
      else if p = ''proj/state.py''
        then Inr ''count = 0\<newline>def bump(n):\<newline>    return n\<newline>def reset():\<newline>    pass\<newline>''
      else if p = ''proj/hello.py''
        then Inr ''def greet(name):\<newline>    print(name)\<newline>''
      else if p = ''proj/locked.py'' then Inl PermissionDenied
      else if p = ''shapes/Shapes.java''
        then Inr ''class A extends B {\<newline>}\<newline>class C {\<newline>}\<newline>''
      else if p = ''lib/a.py''
        then Inr (''import abstract'' @ [CHR 0x0C] @ ''import abstract\<newline>'')
      else Inl FileNotFound)"

definition py_and_txt :: dir_tree where
  "py_and_txt = Dir [''a.py'', ''b.txt''] []"

definition locked_tree :: dir_tree where
  "locked_tree = Dir [''locked.py'', ''a.py''] [(''private'', NotWalked)]"

definition pure_first :: dir_tree where
  "pure_first = Dir [''pure.py'', ''a.py''] []"

definition pure_last :: dir_tree where
  "pure_last = Dir [''a.py'', ''pure.py''] []"

definition no_class_run :: "FileMetrics list" where
  "no_class_run = analyse_directory sample_fs py_and_txt ''proj'' None"

definition shapes_run :: "FileMetrics list" where
  "shapes_run = analyse_directory sample_fs (Dir [''Shapes.java''] []) ''shapes'' None"

definition formfeed_run :: "FileMetrics list" where
  "formfeed_run = analyse_directory sample_fs (Dir [''a.py''] []) ''lib'' None"

definition pure_then_state :: "FileMetrics list" where
  "pure_then_state =
     analyse_directory sample_fs (Dir [''pure.py'', ''state.py''] []) ''proj'' None"

definition hello_run :: "FileMetrics list" where
  "hello_run = analyse_directory sample_fs (Dir [''hello.py''] []) ''proj'' None"

text \<open>A record of a file that was scanned and has been removed since.\<close>

definition gone_file :: FileMetrics where
  "gone_file = (new_FileMetrics ''proj/gone.py'')\<lparr>num_functions := 2, line_count := 4\<rparr>"

text \<open>Records with given totals; the first three name no readable file, the last two
  name \<open>Shapes.java\<close>, whose text has one inheritance match.\<close>

definition five_methods :: FileMetrics where
  "five_methods = (new_FileMetrics ''A.java'')\<lparr>num_functions := 5, num_classes := 1\<rparr>"

definition fifteen_methods :: FileMetrics where
  "fifteen_methods = (new_FileMetrics ''B.java'')\<lparr>num_functions := 15, num_classes := 1\<rparr>"

definition sixteen_in_three :: FileMetrics where
  "sixteen_in_three = (new_FileMetrics ''C.java'')\<lparr>num_functions := 16, num_classes := 3\<rparr>"

definition forty_three_in_eight :: FileMetrics where
  "forty_three_in_eight =
     (new_FileMetrics ''D.java'')\<lparr>num_functions := 43, num_classes := 8\<rparr>"

definition one_of_three :: FileMetrics where
  "one_of_three = (new_FileMetrics ''shapes/Shapes.java'')\<lparr>num_classes := 3\<rparr>"

definition one_of_eighty :: FileMetrics where
  "one_of_eighty = (new_FileMetrics ''shapes/Shapes.java'')\<lparr>num_classes := 80\<rparr>"

section \<open>Properties of the scanner\<close>

subsection \<open>What one pass over the lines computes\<close>

lemma count_patterns_loop_eq:
  "count_patterns_loop n kws line =
     n + int (length (filter (\<lambda>kw. re_search no_flags (keyword_pattern kw) line) kws))"
  by (induction kws arbitrary: n) auto

lemma count_patterns_eq:
  "count_patterns kws line =
     int (length (filter (\<lambda>kw. re_search no_flags (keyword_pattern kw) line) kws))"
  by (simp add: count_patterns_def count_patterns_loop_eq)

lemmas scan_defs =
  count_line_def count_comment_def track_indent_def count_long_line_def
  count_function_def count_class_def count_interface_def add_complexity_def

lemma scan_line_fields:
  "line_count (metrics (scan_line st l)) = line_count (metrics st) + 1"
  "num_functions (metrics (scan_line st l)) =
     num_functions (metrics st) + (if any_pattern_matches function_patterns l then 1 else 0)"
  "num_classes (metrics (scan_line st l)) =
     num_classes (metrics st) + (if any_pattern_matches class_patterns l then 1 else 0)"
  "num_interfaces (metrics (scan_line st l)) =
     num_interfaces (metrics st) + (if any_pattern_matches interface_patterns l then 1 else 0)"
  "comment_count (metrics (scan_line st l)) =
     comment_count (metrics st) + (if is_comment (strip l) then 1 else 0)"
  "long_line_count (metrics (scan_line st l)) =
     long_line_count (metrics st) + (if 79 < length (rstrip_newline l) then 1 else 0)"
  "path (metrics (scan_line st l)) = path (metrics st)"
  "language (metrics (scan_line st l)) = language (metrics st)"
  "complexity (scan_line st l) = complexity st + count_patterns decision_keywords l"
  by (simp_all add: scan_line_def scan_defs split: list.splits option.splits)

lemma foldl_scan_fields:
  "line_count (metrics (foldl scan_line st ls)) = line_count (metrics st) + int (length ls)"
  "num_functions (metrics (foldl scan_line st ls)) =
     num_functions (metrics st)
       + int (length (filter (any_pattern_matches function_patterns) ls))"
  "num_classes (metrics (foldl scan_line st ls)) =
     num_classes (metrics st) + int (length (filter (any_pattern_matches class_patterns) ls))"
  "num_interfaces (metrics (foldl scan_line st ls)) =
     num_interfaces (metrics st)
       + int (length (filter (any_pattern_matches interface_patterns) ls))"
  "comment_count (metrics (foldl scan_line st ls)) =
     comment_count (metrics st) + int (length (filter (\<lambda>l. is_comment (strip l)) ls))"
  "long_line_count (metrics (foldl scan_line st ls)) =
     long_line_count (metrics st)
       + int (length (filter (\<lambda>l. 79 < length (rstrip_newline l)) ls))"
  "path (metrics (foldl scan_line st ls)) = path (metrics st)"
  "language (metrics (foldl scan_line st ls)) = language (metrics st)"
  "complexity (foldl scan_line st ls) =
     complexity st + sum_list (map (count_patterns decision_keywords) ls)"
  by (induction ls arbitrary: st; simp add: scan_line_fields)+

lemma analyse_text_fields:
  "path (analyse_text p text) = p"
  "language (analyse_text p text) = detect_language p"
  "line_count (analyse_text p text) = int (length (readlines text))"
  "num_functions (analyse_text p text) =
     int (length (filter (any_pattern_matches function_patterns) (readlines text)))"
  "num_classes (analyse_text p text) =
     int (length (filter (any_pattern_matches class_patterns) (readlines text)))"
  "num_interfaces (analyse_text p text) =
     int (length (filter (any_pattern_matches interface_patterns) (readlines text)))"
  "comment_count (analyse_text p text) =
     int (length (filter (\<lambda>l. is_comment (strip l)) (readlines text)))"
  "long_line_count (analyse_text p text) =
     int (length (filter (\<lambda>l. 79 < length (rstrip_newline l)) (readlines text)))"
  "cyclomatic_complexity (analyse_text p text) =
     1 + sum_list (map (count_patterns decision_keywords) (readlines text))"
  "complexity_category (analyse_text p text) =
     categorise (cyclomatic_complexity (analyse_text p text))"
  by (simp_all add: analyse_text_def finish_def foldl_scan_fields initial_state_def
      new_FileMetrics_def)

lemma analyse_file_Some:
  "analyse_file fs p = Some m \<longleftrightarrow>
     (\<exists>chars. fs p = Inr chars \<and> m = analyse_text p (universal_newlines chars))"
  by (auto simp: analyse_file_def read_text_def split: sum.splits)

lemma analyse_file_None: "analyse_file fs p = None \<longleftrightarrow> isl (fs p)"
  by (auto simp: analyse_file_def read_text_def split: sum.splits)

lemma sample_a_js:
  "analyse_file sample_fs ''src/a.js'' =
     Some \<lparr>path = ''src/a.js'', num_functions = 2, num_classes = 0, num_interfaces = 0,
           cyclomatic_complexity = 2, complexity_category = ''Simple'', line_count = 3,
           comment_count = 0, long_line_count = 0, mixed_indent = False,
           language = ''javascript'', additional_info = []\<rparr>"
  by code_simp

subsection \<open>Cyclomatic complexity\<close>

text \<open>
  For a token that begins and ends with a word character, the search of \<open>count_patterns\<close>
  finds it exactly when it occurs as a whole token; this covers the eleven decision
  keywords made of letters.
\<close>

lemma match_lit_eq:
  "match_lit no_flags kw (prev, s) =
     (if startswith s kw
      then [(if kw = [] then prev else Some (last kw), drop (length kw) s)] else [])"
proof (induction kw arbitrary: prev s)
  case Nil
  show ?case by (simp add: startswith_def)
next
  case (Cons p ps)
  show ?case
  proof (cases s)
    case Nil
    then show ?thesis by (simp add: startswith_def)
  next
    case (Cons c cs)
    then show ?thesis
      using Cons.IH [of "Some c" cs]
      by (auto simp: startswith_def char_eq_def no_flags_def)
  qed
qed

lemma at_word_boundary_eq:
  "at_word_boundary (prev, s) \<longleftrightarrow> prev_is_word prev \<noteq> next_is_word s"
  by (simp add: at_word_boundary_def prev_is_word_def next_is_word_def)

lemma next_is_word_rev: "kw \<noteq> [] \<Longrightarrow> next_is_word (rev kw) = isword (last kw)"
  by (induction kw rule: rev_induct) (simp_all add: next_is_word_def)

lemma next_is_word_prefix: "kw \<noteq> [] \<Longrightarrow> startswith s kw \<Longrightarrow> next_is_word s = next_is_word kw"
  by (cases s; cases kw) (auto simp: startswith_def next_is_word_def)

lemma keyword_match_at:
  assumes "kw \<noteq> []"
  shows "rx no_flags (keyword_pattern kw) (prev, s) \<noteq> [] \<longleftrightarrow>
     startswith s kw \<and> prev_is_word prev \<noteq> next_is_word kw \<and>
     next_is_word (rev kw) \<noteq> next_is_word (drop (length kw) s)"
proof (cases "startswith s kw")
  case False
  then show ?thesis by (simp add: keyword_pattern_def match_lit_eq)
next
  case True
  have "rx no_flags (keyword_pattern kw) (prev, s) \<noteq> [] \<longleftrightarrow>
      at_word_boundary (prev, s) \<and> at_word_boundary (Some (last kw), drop (length kw) s)"
    using True assms by (simp add: keyword_pattern_def match_lit_eq)
  also have "\<dots> \<longleftrightarrow> prev_is_word prev \<noteq> next_is_word kw \<and>
      next_is_word (rev kw) \<noteq> next_is_word (drop (length kw) s)"
    using next_is_word_prefix [OF assms True] next_is_word_rev [OF assms]
    by (simp add: at_word_boundary_eq prev_is_word_def)
  finally show ?thesis using True by simp
qed

lemma word_keyword_match_at:
  assumes "next_is_word kw" "next_is_word (rev kw)"
  shows "rx no_flags (keyword_pattern kw) (prev, s) \<noteq> [] \<longleftrightarrow> token_at kw prev s"
proof -
  have "kw \<noteq> []" using assms(1) by (auto simp: next_is_word_def)
  then show ?thesis using assms by (auto simp: keyword_match_at token_at_def)
qed

lemma word_keyword_search:
  assumes "next_is_word kw" "next_is_word (rev kw)"
  shows "search_from no_flags (keyword_pattern kw) prev s = occurs_from kw prev s"
  by (induction s arbitrary: prev) (simp_all add: word_keyword_match_at [OF assms])

lemma whole_word_search:
  assumes "next_is_word kw" "next_is_word (rev kw)"
  shows "re_search no_flags (keyword_pattern kw) line = occurs_as_token kw line"
  by (simp add: re_search_def occurs_as_token_def word_keyword_search [OF assms])

lemma word_keywords_counted_as_stated:
  assumes "\<forall>kw \<in> set kws. next_is_word kw \<and> next_is_word (rev kw)"
  shows "count_patterns kws line = token_increment kws line"
proof -
  have "filter (\<lambda>kw. re_search no_flags (keyword_pattern kw) line) kws =
        filter (\<lambda>kw. occurs_as_token kw line) kws"
    by (rule filter_cong) (simp_all add: whole_word_search assms)
  then show ?thesis by (simp add: count_patterns_eq token_increment_def)
qed

lemma decision_word_keywords:
  "\<forall>kw \<in> set [''if'', ''elif'', ''else if'', ''for'', ''while'', ''case'', ''switch'',
      ''catch'', ''except'', ''and'', ''or'']. next_is_word kw \<and> next_is_word (rev kw)"
  by code_simp

text \<open>
  Claim C3. The increment of a line should be the number of the fourteen decision tokens
  that occur in it as whole tokens. The code wraps every token in \<open>\b ... \b\<close>. For the
  three tokens made of symbols (\<open>&&\<close>, \<open>||\<close>, \<open>?\<close>) a word boundary on both sides means a
  word character directly before and directly after the token: in \<open>if (a && b) {\<close> the
  tokens \<open>if\<close> and \<open>&&\<close> occur, but the operator stands between spaces and the code does
  not count it, so the line adds 1 and the file has complexity 2; written \<open>a&&b\<close> the same
  operator is counted and the line adds 2.
\<close>

theorem symbol_tokens_need_adjacent_words:
  "token_increment decision_keywords ''if (a && b) {'' = 2
   \<and> count_patterns decision_keywords ''if (a && b) {'' = 1
   \<and> count_patterns decision_keywords ''if (a&&b) {'' = 2
   \<and> cyclomatic_complexity (analyse_text ''src/a.js'' ''if (a && b) {\<newline>'') = 2"
  by code_simp

text \<open>
  Claim C4. The category of a scanned file is a function of its final complexity: 1 and
  10 are \<open>Simple\<close>, 11 and 20 \<open>Moderate\<close>, 21 and 50 \<open>Complex\<close>, 51 and above \<open>Very High\<close>;
  the function is monotonic and has no other value.
\<close>

theorem complexity_category_step:
  assumes "analyse_file fs p = Some m" and "c \<le> c'"
  shows "complexity_category m = categorise (cyclomatic_complexity m)
   \<and> categorise 1 = ''Simple'' \<and> categorise 10 = ''Simple''
   \<and> categorise 11 = ''Moderate'' \<and> categorise 20 = ''Moderate''
   \<and> categorise 21 = ''Complex'' \<and> categorise 50 = ''Complex''
   \<and> (51 \<le> c \<longrightarrow> categorise c = ''Very High'')
   \<and> category_rank (categorise c) \<le> category_rank (categorise c')
   \<and> categorise c \<in> {''Simple'', ''Moderate'', ''Complex'', ''Very High''}"
proof -
  have a: "complexity_category m = categorise (cyclomatic_complexity m)"
    using assms(1) by (auto simp: analyse_file_Some analyse_text_fields)
  have b: "category_rank (categorise c) \<le> category_rank (categorise c')"
    using assms(2) by (simp add: categorise_def category_rank_def)
  show ?thesis using a b by (simp add: categorise_def)
qed

text \<open>Witness for C4: the file \<open>src/a.js\<close> and the complexities 60 and 7, 60.\<close>

theorem complexity_category_step_witness:
  "analyse_file sample_fs ''src/a.js'' \<noteq> None
   \<and> (7::int) \<le> 60
   \<and> categorise 2 = ''Simple''
   \<and> (51::int) \<le> 60 \<and> categorise 60 = ''Very High''
   \<and> category_rank (categorise 7) \<le> category_rank (categorise 60)"
proof -
  have h2: "(7::int) \<le> 60" by simp
  have h3: "(60::int) \<le> 60" by simp
  show ?thesis
    using sample_a_js h2 complexity_category_step [OF sample_a_js h2]
      complexity_category_step [OF sample_a_js h3]
    by simp
qed

subsection \<open>Ratios\<close>



subsection \<open>Declaration counters\<close>

text \<open>
  Claim C10. In every record that the scanner produces, the numbers of functions, classes
  and interfaces are at most the number of lines: each counter grows by at most one per
  line.
\<close>

theorem declaration_counts_bounded:
  assumes "analyse_file fs p = Some m"
  shows "num_functions m \<le> line_count m \<and> num_classes m \<le> line_count m
         \<and> num_interfaces m \<le> line_count m"
proof -
  obtain chars where m: "m = analyse_text p (universal_newlines chars)"
    using assms by (auto simp: analyse_file_Some)
  show ?thesis unfolding m by (simp add: analyse_text_fields)
qed

text \<open>Witness for C10: \<open>src/a.js\<close>, two function-like lines among three.\<close>

theorem declaration_counts_bounded_witness:
  "analyse_file sample_fs ''src/a.js'' =
     Some \<lparr>path = ''src/a.js'', num_functions = 2, num_classes = 0, num_interfaces = 0,
           cyclomatic_complexity = 2, complexity_category = ''Simple'', line_count = 3,
           comment_count = 0, long_line_count = 0, mixed_indent = False,
           language = ''javascript'', additional_info = []\<rparr>
   \<and> (2::int) \<le> 3 \<and> (0::int) \<le> 3"
  using sample_a_js declaration_counts_bounded [OF sample_a_js] by simp

section \<open>Properties of the walker\<close>

lemma endswith_suffix: "endswith s e \<longleftrightarrow> suffix e s"
proof
  assume "endswith s e"
  then have "s = take (length s - length e) s @ e"
    by (metis append_take_drop_id endswith_def)
  then show "suffix e s" by (metis suffixI)
next
  assume "suffix e s"
  then obtain xs where "s = xs @ e" by (auto simp: suffix_def)
  then show "endswith s e" by (simp add: endswith_def)
qed

lemma skipped_included: "skipped extensions fname \<longleftrightarrow> \<not> included extensions fname"
  by (auto simp: skipped_def included_def list_ex_iff endswith_suffix split: option.splits)

lemma map_filter_append:
  "List.map_filter f (xs @ ys) = List.map_filter f xs @ List.map_filter f ys"
  by (simp add: List.map_filter_def)

lemma files_loop_eq:
  "files_loop fs extensions d results files =
     results @ List.map_filter (analyse_file fs)
                 (map (path_join d) (filter (included extensions) files))"
  by (induction files arbitrary: results)
     (auto simp: skipped_included map_filter_simps split: option.splits)

lemma walk_loop_eq:
  "walk_loop fs extensions results entries =
     results @ List.map_filter (analyse_file fs)
        (concat (map (\<lambda>(d, files). map (path_join d) (filter (included extensions) files))
                     entries))"
  by (induction entries arbitrary: results)
     (auto simp: files_loop_eq map_filter_append map_filter_simps)

lemma analyse_directory_eq:
  "analyse_directory fs tree p extensions =
     List.map_filter (analyse_file fs) (candidates tree p extensions)"
  by (simp add: analyse_directory_def walk_loop_eq candidates_def)

lemma paths_of_scanned:
  "map path (List.map_filter (analyse_file fs) ps) = filter (\<lambda>q. \<not> isl (fs q)) ps"
proof (induction ps)
  case Nil
  show ?case by (simp add: map_filter_simps)
next
  case (Cons q ps)
  show ?case
  proof (cases "fs q")
    case (Inl e)
    then have "analyse_file fs q = None" by (simp add: analyse_file_None)
    with Cons Inl show ?thesis by (simp add: map_filter_simps)
  next
    case (Inr chars)
    then have "analyse_file fs q = Some (analyse_text q (universal_newlines chars))"
      by (simp add: analyse_file_Some)
    with Cons Inr show ?thesis by (simp add: map_filter_simps analyse_text_fields)
  qed
qed

lemma candidates_py_and_txt:
  "candidates py_and_txt p (Some [''.py'']) = [path_join p ''a.py'']"
  by (simp add: candidates_def py_and_txt_def included_def endswith_suffix [symmetric]
      endswith_def)

text \<open>
  Claim C7. The walker scans exactly the files whose name qualifies: with an explicit list
  the names that end with a listed string, without one the names whose language the
  classifier knows. A directory with \<open>a.py\<close> and \<open>b.txt\<close>, walked with the list \<open>[".py"]\<close>,
  gives one record (the one of \<open>a.py\<close>, when that file can be read).
\<close>

theorem walker_filter:
  "(skipped extensions fname \<longleftrightarrow> \<not> included extensions fname)
   \<and> analyse_directory fs tree p extensions =
       List.map_filter (analyse_file fs) (candidates tree p extensions)
   \<and> (fs (path_join p ''a.py'') = Inr chars \<longrightarrow>
        analyse_directory fs py_and_txt p (Some [''.py'']) =
          [analyse_text (path_join p ''a.py'') (universal_newlines chars)])"
proof (intro conjI impI)
  show "skipped extensions fname \<longleftrightarrow> \<not> included extensions fname"
    by (rule skipped_included)
  show "analyse_directory fs tree p extensions =
       List.map_filter (analyse_file fs) (candidates tree p extensions)"
    by (rule analyse_directory_eq)
next
  assume r: "fs (path_join p ''a.py'') = Inr chars"
  then have "analyse_file fs (path_join p ''a.py'') =
      Some (analyse_text (path_join p ''a.py'') (universal_newlines chars))"
    by (simp add: analyse_file_Some)
  then show "analyse_directory fs py_and_txt p (Some [''.py'']) =
          [analyse_text (path_join p ''a.py'') (universal_newlines chars)]"
    by (simp add: analyse_directory_eq candidates_py_and_txt map_filter_simps)
qed

text \<open>Witness for C7: the directory \<open>proj\<close> of the sample file system, with the list
  \<open>[".py"]\<close> and without a list (where \<open>b.txt\<close> is left out as well).\<close>

theorem walker_filter_witness:
  "sample_fs (path_join ''proj'' ''a.py'') = Inr ''x = 1\<newline>''
   \<and> length (analyse_directory sample_fs py_and_txt ''proj'' (Some [''.py''])) = 1
   \<and> map path (analyse_directory sample_fs py_and_txt ''proj'' (Some [''.py''])) = [''proj/a.py'']
   \<and> map path (analyse_directory sample_fs py_and_txt ''proj'' (Some [''.txt''])) = [''proj/b.txt'']
   \<and> map path (analyse_directory sample_fs py_and_txt ''proj'' None) = [''proj/a.py'']
   \<and> skipped (Some [''.py'']) ''b.txt'' \<and> \<not> included (Some [''.py'']) ''b.txt''"
proof -
  have h: "sample_fs (path_join ''proj'' ''a.py'') = Inr ''x = 1\<newline>''"
    by code_simp
  have p: "path_join ''proj'' ''a.py'' = ''proj/a.py''"
    by code_simp
  have t: "map path (analyse_directory sample_fs py_and_txt ''proj'' (Some [''.txt''])) = [''proj/b.txt'']"
    by code_simp
  have n: "map path (analyse_directory sample_fs py_and_txt ''proj'' None) = [''proj/a.py'']"
    by code_simp
  have s: "skipped (Some [''.py'']) ''b.txt''"
    by code_simp
  note w = walker_filter [of "Some [''.py'']" "''b.txt''" sample_fs py_and_txt "''proj''"
      "''x = 1\<newline>''"]
  note e = w [THEN conjunct2, THEN conjunct2, THEN mp, OF h]
  have i: "\<not> included (Some [''.py'']) ''b.txt''"
    using w [THEN conjunct1] s by simp
  show ?thesis using h p t n s e i by (simp add: analyse_text_fields)
qed

text \<open>
  Claim C9. The scanner returns no record exactly when the file cannot be opened or read,
  whatever the error; the walker's result then holds the records of the qualifying files
  that can be read, in traversal order, and nothing for the others.
\<close>

theorem unreadable_files_skipped:
  "(analyse_file fs p = None \<longleftrightarrow> isl (fs p))
   \<and> map path (analyse_directory fs tree d extensions) =
       filter (\<lambda>q. \<not> isl (fs q)) (candidates tree d extensions)"
  by (simp add: analyse_file_None analyse_directory_eq paths_of_scanned)

text \<open>Witness for C9: a directory with a file that may not be read and a subdirectory
  that cannot be entered.\<close>

theorem unreadable_files_skipped_witness:
  "analyse_file sample_fs ''proj/locked.py'' = None
   \<and> sample_fs ''proj/locked.py'' = Inl PermissionDenied
   \<and> candidates locked_tree ''proj'' None = [''proj/locked.py'', ''proj/a.py'']
   \<and> map path (analyse_directory sample_fs locked_tree ''proj'' None) = [''proj/a.py'']"
proof -
  have l: "sample_fs ''proj/locked.py'' = Inl PermissionDenied"
    by code_simp
  have a: "sample_fs ''proj/a.py'' = Inr ''x = 1\<newline>''"
    by code_simp
  have c: "candidates locked_tree ''proj'' None = [''proj/locked.py'', ''proj/a.py'']"
    by code_simp
  from unreadable_files_skipped [of sample_fs "''proj/locked.py''" locked_tree "''proj''" None]
  show ?thesis using l a c by simp
qed

section \<open>Properties of the evaluators\<close>

subsection \<open>Rounding to a double\<close>

lemma round_half_even_nonneg: "0 \<le> x \<Longrightarrow> 0 \<le> round_half_even x"
  by (auto simp: round_half_even_def Let_def)

lemma round_half_even_le:
  assumes "x \<le> of_int k"
  shows "round_half_even x \<le> k"
proof -
  have f: "\<lfloor>x\<rfloor> \<le> k" using assms by (simp add: floor_le_iff)
  show ?thesis
  proof (cases "\<lfloor>x\<rfloor> = k")
    case True
    then have "x - of_int \<lfloor>x\<rfloor> \<le> 0" using assms by simp
    then show ?thesis using True by (simp add: round_half_even_def Let_def)
  next
    case False
    then have "\<lfloor>x\<rfloor> + 1 \<le> k" using f by simp
    then show ?thesis by (auto simp: round_half_even_def Let_def)
  qed
qed

lemma round_half_even_near: "\<bar>x - of_int (round_half_even x)\<bar> \<le> 1 / 2"
proof -
  define n where "n = \<lfloor>x\<rfloor>"
  have b: "rat_of_int n \<le> x" "x < rat_of_int n + 1"
    unfolding n_def by linarith+
  consider "x - rat_of_int n < 1 / 2" | "1 / 2 < x - rat_of_int n" | "x - rat_of_int n = 1 / 2"
    by linarith
  then show ?thesis
  proof cases
    case 1
    then have "round_half_even x = n" by (simp add: round_half_even_def n_def)
    then show ?thesis using b 1 by simp
  next
    case 2
    then have "round_half_even x = n + 1" by (simp add: round_half_even_def n_def)
    then show ?thesis using b 2 by simp
  next
    case 3
    then have "round_half_even x = n \<or> round_half_even x = n + 1"
      by (simp add: round_half_even_def n_def Let_def)
    then show ?thesis using b 3 by auto
  qed
qed

text \<open>The exponent brackets the number between two powers of two.\<close>

lemma float_exponent_bounds:
  assumes "x \<noteq> 0"
  shows "2 powi float_exponent x \<le> \<bar>x\<bar> \<and> \<bar>x\<bar> < 2 powi (float_exponent x + 1)"
proof (cases "1 \<le> \<bar>x\<bar>")
  case True
  define n where "n = nat \<lfloor>\<bar>x\<bar>\<rfloor>"
  define l where "l = floorlog 2 n"
  have n: "0 < n" using True by (simp add: n_def)
  have fb: "2 ^ (l - 1) \<le> n" "n < 2 ^ l"
    using floorlog_bounds [where b = 2 and x = n] n by (simp_all add: l_def)
  have l: "0 < l" using n by (simp add: l_def floorlog_def)
  have e: "float_exponent x = int (l - 1)"
    using True l by (simp add: float_exponent_def Let_def n_def l_def)
  have nx: "rat_of_nat n \<le> \<bar>x\<bar>" "\<bar>x\<bar> < rat_of_nat n + 1"
    using True by (simp_all add: n_def) linarith+
  have "rat_of_nat (2 ^ (l - 1)) \<le> rat_of_nat n" using fb(1) by (simp only: of_nat_le_iff)
  then have "(2::rat) ^ (l - 1) \<le> rat_of_nat n" by (simp only: of_nat_power of_nat_numeral)
  then have lo: "2 ^ (l - 1) \<le> \<bar>x\<bar>" using nx(1) by linarith
  have "n + 1 \<le> 2 ^ l" using fb(2) by simp
  then have "rat_of_nat (n + 1) \<le> rat_of_nat (2 ^ l)" by (simp only: of_nat_le_iff)
  then have "rat_of_nat n + 1 \<le> (2::rat) ^ l"
    by (simp only: of_nat_power of_nat_numeral of_nat_add of_nat_1)
  then have hi: "\<bar>x\<bar> < 2 ^ l" using nx(2) by linarith
  have p1: "(2::rat) powi int (l - 1) = 2 ^ (l - 1)" by (rule power_int_of_nat)
  have "int (l - 1) + 1 = int l" using l by simp
  then have p2: "(2::rat) powi (int (l - 1) + 1) = 2 ^ l" by (simp only: power_int_of_nat)
  show ?thesis using lo hi by (simp only: e p1 p2)
next
  case False
  define y where "y = 1 / \<bar>x\<bar>"
  define k where "k = nat (\<lceil>y\<rceil> - 1)"
  define l where "l = floorlog 2 k"
  have a: "0 < \<bar>x\<bar>" "\<bar>x\<bar> < 1" using assms False by simp_all
  have y: "1 < y" using a by (simp add: y_def)
  then have c: "2 \<le> \<lceil>y\<rceil>" by linarith
  have k: "0 < k" using c by (simp add: k_def)
  have ky: "rat_of_nat k < y" "y \<le> rat_of_nat k + 1"
    using c by (simp_all add: k_def) linarith+
  have fb: "2 ^ (l - 1) \<le> k" "k < 2 ^ l"
    using floorlog_bounds [where b = 2 and x = k] k by (simp_all add: l_def)
  have l: "0 < l" using k by (simp add: l_def floorlog_def)
  have e: "float_exponent x = - int l"
    using False by (simp add: float_exponent_def Let_def k_def l_def y_def)
  have "k + 1 \<le> 2 ^ l" using fb(2) by simp
  then have "rat_of_nat (k + 1) \<le> rat_of_nat (2 ^ l)" by (simp only: of_nat_le_iff)
  then have "rat_of_nat k + 1 \<le> (2::rat) ^ l"
    by (simp only: of_nat_power of_nat_numeral of_nat_add of_nat_1)
  then have yl: "y \<le> 2 ^ l" using ky(2) by linarith
  have "rat_of_nat (2 ^ (l - 1)) \<le> rat_of_nat k" using fb(1) by (simp only: of_nat_le_iff)
  then have "(2::rat) ^ (l - 1) \<le> rat_of_nat k" by (simp only: of_nat_power of_nat_numeral)
  then have yh: "2 ^ (l - 1) < y" using ky(1) by linarith
  have lo: "1 / 2 ^ l \<le> \<bar>x\<bar>"
    using yl a by (simp add: y_def field_simps)
  have hi: "\<bar>x\<bar> < 1 / 2 ^ (l - 1)"
    using yh a by (simp add: y_def field_simps)
  have p1: "(2::rat) powi (- int l) = 1 / 2 ^ l"
    by (simp only: power_int_minus power_int_of_nat inverse_eq_divide)
  have "- int l + 1 = - int (l - 1)" using l by simp
  then have p2: "(2::rat) powi (- int l + 1) = 1 / 2 ^ (l - 1)"
    by (simp only: power_int_minus power_int_of_nat inverse_eq_divide)
  show ?thesis using lo hi by (simp only: e p1 p2)
qed

lemma float_exponent_unit: "x \<le> 1 \<Longrightarrow> 0 < x \<Longrightarrow> float_exponent x \<le> 0"
  by (auto simp: float_exponent_def Let_def abs_if compute_floorlog)

text \<open>Rounding to a double moves a number by at most half a unit in the last place, and
  keeps it on its side of 0 and of 1.\<close>

lemma to_double_near:
  assumes "x \<noteq> 0"
  shows "\<bar>to_double x - x\<bar> \<le> 2 powi (float_exponent x - 52) / 2"
proof -
  define ulp :: rat where "ulp = 2 powi (float_exponent x - 52)"
  have u: "0 < ulp" by (simp add: ulp_def)
  have "\<bar>x / ulp - of_int (round_half_even (x / ulp))\<bar> \<le> 1 / 2"
    by (rule round_half_even_near)
  then have "\<bar>x / ulp - of_int (round_half_even (x / ulp))\<bar> * ulp \<le> 1 / 2 * ulp"
    using u by (simp only: mult_le_cancel_right_pos)
  moreover have "\<bar>x / ulp - of_int (round_half_even (x / ulp))\<bar> * ulp =
      \<bar>x - of_int (round_half_even (x / ulp)) * ulp\<bar>"
  proof -
    have "\<bar>x / ulp - of_int (round_half_even (x / ulp))\<bar> * ulp =
        \<bar>(x / ulp - of_int (round_half_even (x / ulp))) * ulp\<bar>"
      using u by (simp add: abs_mult)
    also have "(x / ulp - of_int (round_half_even (x / ulp))) * ulp =
        x - of_int (round_half_even (x / ulp)) * ulp"
      using u by (simp add: left_diff_distrib)
    finally show ?thesis .
  qed
  ultimately have "\<bar>x - of_int (round_half_even (x / ulp)) * ulp\<bar> \<le> ulp / 2"
    by simp
  then show ?thesis
    using assms by (simp add: to_double_def Let_def ulp_def [symmetric] abs_minus_commute)
qed

lemma to_double_nonneg: "0 \<le> x \<Longrightarrow> 0 \<le> to_double x"
  by (auto simp: to_double_def Let_def intro!: mult_nonneg_nonneg round_half_even_nonneg
      divide_nonneg_nonneg)

lemma to_double_le_one:
  assumes "x \<le> 1"
  shows "to_double x \<le> 1"
proof (cases "0 < x")
  case False
  then have "x / 2 powi (float_exponent x - 52) \<le> of_int 0"
    by (simp add: divide_le_0_iff)
  then have "round_half_even (x / 2 powi (float_exponent x - 52)) \<le> 0"
    by (rule round_half_even_le)
  then have "rat_of_int (round_half_even (x / 2 powi (float_exponent x - 52))) *
      2 powi (float_exponent x - 52) \<le> 0"
    by (simp add: mult_le_0_iff)
  then show ?thesis by (simp add: to_double_def Let_def)
next
  case True
  define e where "e = float_exponent x"
  define n where "n = nat (52 - e)"
  have e: "e \<le> 0" using assms True by (simp add: e_def float_exponent_unit)
  have u: "(2::rat) powi (e - 52) = 1 / 2 ^ n"
    using e by (simp add: n_def power_int_def field_simps)
  have "x / (2 powi (e - 52)) \<le> of_int (2 ^ n)"
    using assms True by (simp add: u)
  then have "round_half_even (x / (2 powi (e - 52))) \<le> 2 ^ n"
    by (rule round_half_even_le)
  then have "rat_of_int (round_half_even (x / (2 powi (e - 52)))) \<le> 2 ^ n"
    by (metis of_int_le_iff of_int_numeral of_int_power)
  then have "rat_of_int (round_half_even (x / (2 powi (e - 52)))) * (1 / 2 ^ n) \<le> 1"
    by (simp add: field_simps)
  then show ?thesis using True by (simp add: to_double_def Let_def e_def [symmetric] u)
qed

lemma round3_unit: "0 \<le> x \<Longrightarrow> x \<le> 1 \<Longrightarrow> 0 \<le> round3 x \<and> round3 x \<le> 1"
proof -
  assume a: "0 \<le> x" "x \<le> 1"
  have "0 \<le> round_half_even (x * 1000)" using a by (simp add: round_half_even_nonneg)
  moreover have "round_half_even (x * 1000) \<le> 1000"
    using a by (intro round_half_even_le) simp
  ultimately have "0 \<le> rat_of_int (round_half_even (x * 1000)) / 1000
      \<and> rat_of_int (round_half_even (x * 1000)) / 1000 \<le> 1"
    by simp
  then show ?thesis by (simp add: round3_def to_double_nonneg to_double_le_one)
qed

lemma round3_nonneg: "0 \<le> x \<Longrightarrow> 0 \<le> round3 x"
  by (simp add: round3_def to_double_nonneg round_half_even_nonneg)

lemma round3_three_decimals:
  "\<exists>k. round3 x = to_double (of_int k / 1000) \<and> \<bar>x * 1000 - of_int k\<bar> \<le> 1 / 2"
  using round_half_even_near [of "x * 1000"] by (auto simp: round3_def)

lemma to_double_1: "to_double 1 = 1"
  by code_simp

lemma to_double_5: "to_double 5 = 5"
  by code_simp

lemma to_double_10: "to_double 10 = 10"
  by code_simp

lemma to_double_15: "to_double 15 = 15"
  by code_simp

lemma round3_0 [simp]: "round3 0 = 0"
  by (simp add: round3_def round_half_even_def to_double_def)

lemma round3_1 [simp]: "round3 1 = 1"
  by (simp add: round3_def round_half_even_def to_double_1)

text \<open>The doubles that Python prints as \<open>0.3333333333333333\<close>, \<open>0.333\<close>, \<open>0.0125\<close> and
  \<open>0.013\<close>: rounding to three decimals changes the value, and \<open>1/80\<close>, a decimal tie, goes
  up because the double nearest to it lies above it.\<close>

lemma sample_doubles:
  "to_double (1 / 3) = 6004799503160661 / 18014398509481984"
  "round3 (to_double (1 / 3)) = 5998794703657501 / 18014398509481984"
  "to_double (333 / 1000) = 5998794703657501 / 18014398509481984"
  "to_double (1 / 80) = 3602879701896397 / 288230376151711744"
  "round3 (to_double (1 / 80)) = 7493989779944505 / 576460752303423488"
  "to_double (13 / 1000) = 7493989779944505 / 576460752303423488"
  by code_simp+

subsection \<open>The totals and the scores of evaluate_solid\<close>

lemma solid_foldl:
  "foldl (solid_step fs) t files =
     \<lparr>total_classes = total_classes t + sum_list (map num_classes files),
      total_functions = total_functions t + sum_list (map num_functions files),
      classes_with_inheritance = classes_with_inheritance t
         + (\<Sum>fm\<leftarrow>files. count_inheritance (text_or_empty fs (path fm))),
      total_interfaces = total_interfaces t + sum_list (map num_interfaces files),
      interface_methods = interface_methods t
         + (\<Sum>fm\<leftarrow>files. count_interface_methods (text_or_empty fs (path fm))),
      uses_abstract_in_imports = uses_abstract_in_imports t
         + (\<Sum>fm\<leftarrow>files. count_abstract_imports (text_or_empty fs (path fm)))\<rparr>"
  by (induction files arbitrary: t) (simp_all add: solid_step_def Let_def)

lemma solid_totals_fields:
  "total_classes (foldl (solid_step fs) solid_start files) = sum_list (map num_classes files)"
  "total_functions (foldl (solid_step fs) solid_start files) = sum_list (map num_functions files)"
  "classes_with_inheritance (foldl (solid_step fs) solid_start files) =
     (\<Sum>fm\<leftarrow>files. count_inheritance (text_or_empty fs (path fm)))"
  by (simp_all add: solid_foldl solid_start_def)

lemma srp_score_eq:
  "srp_score t =
     Inr (if 0 < total_classes t
          then max 0 (float_sub 1 (float_quotient
                 (max 0 (float_sub
                    (to_double (of_int (total_functions t) / of_int (total_classes t))) 5)) 10))
          else 1)"
  by (simp add: srp_score_def float_div_def true_div_def)

lemma ocp_score_eq:
  "ocp_score t =
     Inr (if 0 < total_classes t
          then min 1 (to_double (of_int (classes_with_inheritance t) / of_int (total_classes t)))
          else 1)"
  by (simp add: ocp_score_def float_div_def true_div_def)

lemma isp_score_eq:
  "isp_score t =
     Inr (if 0 < total_interfaces t
          then max 0 (float_sub 1 (float_quotient
                 (max 0 (float_sub
                    (to_double (of_int (interface_methods t) / of_int (total_interfaces t))) 5))
                 10))
          else 1)"
  by (simp add: isp_score_def float_div_def true_div_def)

lemma dip_score_eq:
  "dip_score t n =
     Inr (if n \<noteq> 0 then to_double (of_int (uses_abstract_in_imports t) / of_int n) else 0)"
  by (simp add: dip_score_def float_div_def true_div_def)

lemma evaluate_solid_eq:
  "evaluate_solid fs files =
     (let t = foldl (solid_step fs) solid_start files in
      Inr \<lparr>single_responsibility = round3 (projr (srp_score t)),
           open_closed = round3 (projr (ocp_score t)),
           interface_segregation = round3 (projr (isp_score t)),
           dependency_inversion = round3 (projr (dip_score t (foldl (imports_step fs) 0 files))),
           liskov_substitution = 1 / 2\<rparr>)"
  by (simp add: evaluate_solid_def Let_def srp_score_eq ocp_score_eq isp_score_eq dip_score_eq)

lemma srp_closed_form:
  "\<exists>s. evaluate_solid fs files = Inr s \<and>
       single_responsibility s =
         (if 0 < sum_list (map num_classes files)
          then round3 (max 0 (float_sub 1 (float_quotient
                 (max 0 (float_sub
                    (to_double (of_int (sum_list (map num_functions files))
                                / of_int (sum_list (map num_classes files)))) 5)) 10)))
          else 1)"
  by (simp add: evaluate_solid_eq Let_def srp_score_eq solid_totals_fields)

lemma no_class_run_eq:
  "no_class_run =
     [\<lparr>path = ''proj/a.py'', num_functions = 0, num_classes = 0, num_interfaces = 0,
       cyclomatic_complexity = 1, complexity_category = ''Simple'', line_count = 1,
       comment_count = 0, long_line_count = 0, mixed_indent = False,
       language = ''python'', additional_info = []\<rparr>]"
  by code_simp

subsection \<open>Print calls and assignment-like lines\<close>

text \<open>
  The search for \<open>\b(print|console\.log|System\.out\.println)\b\<close> succeeds exactly when
  the text contains a print or log call in the sense above.
\<close>

lemma print_pattern_match_at:
  "rx no_flags print_pattern cur \<noteq> [] \<longleftrightarrow>
     (\<exists>name \<in> set print_calls. rx no_flags (keyword_pattern name) cur \<noteq> [])"
  by (cases "at_word_boundary cur")
     (auto simp: print_pattern_def seqs_def keyword_pattern_def print_calls_def)

lemma print_calls_words:
  "\<forall>name \<in> set print_calls. next_is_word name \<and> next_is_word (rev name)"
  by code_simp

lemma occurs_from_ex:
  "(\<exists>name \<in> set names. occurs_from name prev s) \<longleftrightarrow>
     (case s of [] \<Rightarrow> (\<exists>name \<in> set names. token_at name prev [])
      | c # cs \<Rightarrow> (\<exists>name \<in> set names. token_at name prev (c # cs)) \<or>
                 (\<exists>name \<in> set names. occurs_from name (Some c) cs))"
  by (cases s) auto

lemma print_search:
  "search_from no_flags print_pattern prev s \<longleftrightarrow>
     (\<exists>name \<in> set print_calls. occurs_from name prev s)"
proof (induction s arbitrary: prev)
  case Nil
  show ?case
    using print_calls_words
    by (simp add: print_pattern_match_at) (metis word_keyword_match_at)
next
  case (Cons c cs)
  have "(\<exists>name \<in> set print_calls. rx no_flags (keyword_pattern name) (prev, c # cs) \<noteq> []) \<longleftrightarrow>
      (\<exists>name \<in> set print_calls. token_at name prev (c # cs))"
    using print_calls_words by (metis word_keyword_match_at)
  then show ?case
    by (simp add: print_pattern_match_at Cons.IH) blast
qed

lemma has_print_eq: "has_print text = calls_print text"
  by (simp add: has_print_def re_search_def print_search calls_print_def list_ex_iff
      occurs_as_token_def)

text \<open>
  \<open>findall\<close> with \<open>^[^#\n]*=\<close> in multi-line mode finds one match in every assignment-like
  line and none elsewhere: a match starts at the start of a line and ends inside it, and
  the scan finds no further start before the next line.
\<close>

lemma match_equals:
  "match_lit MULTILINE ''='' (p, s) =
     (case s of [] \<Rightarrow> [] | c # cs \<Rightarrow> if c = CHR ''='' then [(Some c, cs)] else [])"
  by (cases s) (auto simp: char_eq_def MULTILINE_def)

lemma equals_ends_eq:
  "concat (map (match_lit MULTILINE ''='')
       (class_run MULTILINE (NoneOf [CHR ''#'', newline]) (prev, s))) = equals_ends prev s"
  by (induction s arbitrary: prev)
     (simp_all add: match_equals in_assignment_prefix_def del: match_lit.simps)

lemma concat_singletons: "concat (map (\<lambda>x. concat (map (\<lambda>y. [y]) (g x))) xs) = concat (map g xs)"
  by (induction xs) simp_all

lemma assignment_rx:
  "rx MULTILINE assignment_pattern (prev, s) =
     (if at_line_start MULTILINE (prev, s)
      then concat (map (match_lit MULTILINE ''='')
             (rev (class_run MULTILINE (NoneOf [CHR ''#'', newline]) (prev, s))))
      else [])"
  by (simp add: assignment_pattern_def seqs_def concat_singletons)

lemma set_concat_rev: "set (concat (map g (rev xs))) = set (concat (map g xs))"
  by auto

lemma assignment_rx_set:
  "set (rx MULTILINE assignment_pattern (prev, s)) =
     (if at_line_start MULTILINE (prev, s) then set (equals_ends prev s) else {})"
  by (simp add: assignment_rx set_concat_rev equals_ends_eq del: set_concat)

lemma equals_ends_empty:
  "equals_ends prev s = [] \<longleftrightarrow> CHR ''='' \<notin> set (takeWhile in_assignment_prefix s)"
  by (induction s arbitrary: prev) (auto simp: in_assignment_prefix_def newline_def)

lemma equals_ends_within:
  "e \<in> set (equals_ends prev s) \<Longrightarrow>
     \<exists>k. 1 \<le> k \<and> k \<le> length (takeWhile in_assignment_prefix s) \<and> snd e = drop k s"
proof (induction s arbitrary: prev)
  case Nil
  then show ?case by simp
next
  case (Cons c cs)
  show ?case
  proof (cases "e = (Some c, cs) \<and> c = CHR ''=''")
    case True
    then have "in_assignment_prefix c" by (simp add: in_assignment_prefix_def newline_def)
    then show ?thesis using True by (intro exI [of _ 1]) simp
  next
    case False
    then have p: "in_assignment_prefix c" and m: "e \<in> set (equals_ends (Some c) cs)"
      using Cons.prems by (auto split: if_splits)
    from Cons.IH [OF m] obtain k where
      "1 \<le> k" "k \<le> length (takeWhile in_assignment_prefix cs)" "snd e = drop k cs"
      by blast
    then show ?thesis using p by (intro exI [of _ "Suc k"]) simp
  qed
qed

lemma prefix_within_line:
  "length (takeWhile in_assignment_prefix s) \<le> length (takeWhile (\<lambda>c. c \<noteq> newline) s)"
  by (induction s) (auto simp: in_assignment_prefix_def)

lemma prefix_of_line:
  "takeWhile in_assignment_prefix s =
     takeWhile (\<lambda>c. c \<noteq> CHR ''#'') (takeWhile (\<lambda>c. c \<noteq> newline) s)"
  by (induction s) (auto simp: in_assignment_prefix_def)

lemma at_line_start_multiline: "at_line_start MULTILINE (prev, s) = line_start prev"
  by (simp add: at_line_start_def line_start_def MULTILINE_def split: option.splits)

lemma first_assignment_none:
  "first_match MULTILINE assignment_pattern (prev, s) = None \<longleftrightarrow>
     \<not> (line_start prev \<and> assignment_like (takeWhile (\<lambda>c. c \<noteq> newline) s))"
proof -
  have "first_match MULTILINE assignment_pattern (prev, s) = None \<longleftrightarrow>
      set (rx MULTILINE assignment_pattern (prev, s)) = {}"
    by (simp add: first_match_def split: list.splits)
  then show ?thesis
    by (simp add: assignment_rx_set at_line_start_multiline equals_ends_empty
        assignment_like_def prefix_of_line)
qed

lemma first_assignment_some:
  assumes "first_match MULTILINE assignment_pattern (prev, s) = Some (u, e)"
  shows "length (snd e) < length s \<and>
         length s - length (snd e) \<le> length (takeWhile (\<lambda>c. c \<noteq> newline) s)"
proof -
  have "e \<in> set (rx MULTILINE assignment_pattern (prev, s))"
    using assms by (auto simp: first_match_def split: list.splits)
  then have "e \<in> set (equals_ends prev s)"
    by (simp add: assignment_rx_set split: if_splits)
  then obtain k where k: "1 \<le> k" "k \<le> length (takeWhile in_assignment_prefix s)"
      "snd e = drop k s"
    using equals_ends_within by blast
  have "length (takeWhile in_assignment_prefix s) \<le> length s"
    by (rule length_takeWhile_le)
  then show ?thesis using k prefix_within_line [of s] by simp
qed

lemma text_lines_nonempty [simp]: "text_lines s \<noteq> []"
  by (induction s) (auto split: list.splits)

lemma text_lines_hd: "hd (text_lines s) = takeWhile (\<lambda>c. c \<noteq> newline) s"
  by (induction s) (auto split: list.splits)

lemma text_lines_tl: "c \<noteq> newline \<Longrightarrow> tl (text_lines (c # cs)) = tl (text_lines cs)"
  by (auto split: list.splits)

lemma text_lines_split: "text_lines s = takeWhile (\<lambda>c. c \<noteq> newline) s # tl (text_lines s)"
  using text_lines_hd [of s] text_lines_nonempty [of s] by (cases "text_lines s") auto

lemma not_assignment_like_empty [simp]: "\<not> assignment_like []"
  by (simp add: assignment_like_def)

lemma count_lines_split:
  "length (filter assignment_like (text_lines s)) =
     (if assignment_like (takeWhile (\<lambda>c. c \<noteq> newline) s) then 1 else 0)
     + length (filter assignment_like (tl (text_lines s)))"
  by (subst text_lines_split) simp

lemma scan_assignments:
  "(line_start prev \<longrightarrow>
      length (scan_matches (first_match MULTILINE assignment_pattern) 0 prev s) =
        length (filter assignment_like (text_lines s)))
   \<and> (\<not> line_start prev \<longrightarrow> k \<le> length (takeWhile (\<lambda>c. c \<noteq> newline) s) \<longrightarrow>
      length (scan_matches (first_match MULTILINE assignment_pattern) k prev s) =
        length (filter assignment_like (tl (text_lines s))))"
proof (induction s arbitrary: prev k)
  case Nil
  have "(first_match MULTILINE assignment_pattern) (prev, []) = None"
    by (simp add: first_assignment_none)
  then show ?case by simp
next
  case (Cons c cs)
  have ih1: "line_start p \<Longrightarrow> length (scan_matches (first_match MULTILINE assignment_pattern) 0 p cs) =
        length (filter assignment_like (text_lines cs))" for p
    using Cons.IH [of p 0] by simp
  have ih2: "\<not> line_start p \<Longrightarrow> j \<le> length (takeWhile (\<lambda>c. c \<noteq> newline) cs) \<Longrightarrow>
      length (scan_matches (first_match MULTILINE assignment_pattern) j p cs) =
        length (filter assignment_like (tl (text_lines cs)))" for p j
    using Cons.IH [of p j] by simp
  have after: "length (scan_matches (first_match MULTILINE assignment_pattern) 0 (Some c) cs) =
      length (filter assignment_like (tl (text_lines (c # cs))))"
  proof (cases "c = newline")
    case True
    then show ?thesis using ih1 [of "Some c"] by (simp add: line_start_def)
  next
    case False
    then show ?thesis
      using ih2 [of "Some c" 0] by (simp add: line_start_def text_lines_tl del: text_lines.simps)
  qed
  have part1: "length (scan_matches (first_match MULTILINE assignment_pattern) 0 prev (c # cs)) =
        length (filter assignment_like (text_lines (c # cs)))" if ls: "line_start prev"
  proof (cases "(first_match MULTILINE assignment_pattern) (prev, c # cs)")
    case None
    then have "\<not> assignment_like (takeWhile (\<lambda>c. c \<noteq> newline) (c # cs))"
      using ls by (simp add: first_assignment_none)
    then show ?thesis
      using None after by (subst count_lines_split) (simp del: text_lines.simps)
  next
    case (Some m)
    obtain u e where m: "m = (u, e)" by (cases m)
    have al: "assignment_like (takeWhile (\<lambda>c. c \<noteq> newline) (c # cs))"
      using Some first_assignment_none [of prev "c # cs"] by auto
    then have c: "c \<noteq> newline" by (auto simp: assignment_like_def)
    have b: "length (snd e) < length (c # cs) \<and>
        length (c # cs) - length (snd e) \<le> length (takeWhile (\<lambda>c. c \<noteq> newline) (c # cs))"
      using Some m by (intro first_assignment_some [of prev "c # cs" u e]) simp
    then have "length (snd e) < Suc (length cs) \<and>
        Suc (length cs) - length (snd e) \<le> Suc (length (takeWhile (\<lambda>c. c \<noteq> newline) cs))"
      using c by simp
    then have j: "length cs - length (snd e) \<le> length (takeWhile (\<lambda>c. c \<noteq> newline) cs)"
      by linarith
    have "length (scan_matches (first_match MULTILINE assignment_pattern) 0 prev (c # cs)) =
        1 + length (scan_matches (first_match MULTILINE assignment_pattern) (length cs - length (snd e)) (Some c) cs)"
      using Some m by simp
    also have "\<dots> = 1 + length (filter assignment_like (tl (text_lines cs)))"
      using ih2 [OF _ j, of "Some c"] c by (simp add: line_start_def)
    also have "\<dots> = length (filter assignment_like (text_lines (c # cs)))"
      using al c by (subst count_lines_split) (simp add: text_lines_tl del: text_lines.simps)
    finally show ?thesis .
  qed
  have part2: "length (scan_matches (first_match MULTILINE assignment_pattern) k prev (c # cs)) =
        length (filter assignment_like (tl (text_lines (c # cs))))"
    if nls: "\<not> line_start prev" and k: "k \<le> length (takeWhile (\<lambda>c. c \<noteq> newline) (c # cs))"
  proof (cases "0 < k")
    case True
    then have c: "c \<noteq> newline" using k by (auto split: if_splits)
    then have "k - 1 \<le> length (takeWhile (\<lambda>c. c \<noteq> newline) cs)" using k by simp
    then have "length (scan_matches (first_match MULTILINE assignment_pattern) (k - 1) (Some c) cs) =
        length (filter assignment_like (tl (text_lines cs)))"
      using ih2 [of "Some c" "k - 1"] c by (simp add: line_start_def)
    then show ?thesis using True c by (simp add: text_lines_tl del: text_lines.simps)
  next
    case False
    have "(first_match MULTILINE assignment_pattern) (prev, c # cs) = None"
      using nls by (simp add: first_assignment_none)
    then show ?thesis using False after by simp
  qed
  show ?case using part1 part2 by blast
qed

lemma count_assignments_eq: "count_assignments text = int (assignment_line_count text)"
  using scan_assignments [of None "text" 0]
  by (simp add: count_assignments_def findall_count_def assignment_line_count_def line_start_def)

subsection \<open>The totals and the scores of evaluate_functional\<close>

lemma isl_read_text [simp]: "isl (read_text fs p) = isl (fs p)"
  by (simp add: read_text_def split: sum.splits)

lemma functional_step_fields:
  "total_assignments (functional_step fs t fm) =
     total_assignments t +
       (case read_text fs (path fm) of
          Inl e \<Rightarrow> 0
        | Inr text \<Rightarrow> int (assignment_line_count text))"
  "pure_functions (functional_step fs t fm) =
     pure_functions t +
       (if (case read_text fs (path fm) of
              Inl e \<Rightarrow> False
            | Inr text \<Rightarrow> total_assignments t + int (assignment_line_count text) = 0 \<and>
                          \<not> calls_print text) \<and> 0 < num_functions fm
        then num_functions fm else 0)"
  by (auto simp: functional_step_def Let_def count_assignments_eq has_print_eq
      split: sum.splits)

lemma assignments_so_far_append:
  "i < length files \<Longrightarrow> assignments_so_far fs (files @ [fm]) i = assignments_so_far fs files i"
  by (simp add: assignments_so_far_def)

lemma counted_pure_append:
  "i < length files \<Longrightarrow> counted_pure fs (files @ [fm]) i = counted_pure fs files i"
  by (simp add: counted_pure_def assignments_so_far_append nth_append split: sum.splits)

lemma pure_function_count_snoc:
  "pure_function_count fs (files @ [fm]) =
     pure_function_count fs files +
       (if counted_pure fs (files @ [fm]) (length files) \<and> 0 < num_functions fm
        then num_functions fm else 0)"
proof -
  have "(\<Sum>i\<leftarrow>[0..<length files].
            if counted_pure fs (files @ [fm]) i \<and> 0 < num_functions ((files @ [fm]) ! i)
            then num_functions ((files @ [fm]) ! i) else 0) =
        (\<Sum>i\<leftarrow>[0..<length files].
            if counted_pure fs files i \<and> 0 < num_functions (files ! i)
            then num_functions (files ! i) else 0)"
    by (rule arg_cong [where f = sum_list], rule map_cong)
       (simp_all add: counted_pure_append nth_append)
  then show ?thesis by (simp add: pure_function_count_def)
qed

lemma functional_foldl:
  "total_assignments (foldl (functional_step fs) functional_start files) =
     (\<Sum>fm\<leftarrow>files. case read_text fs (path fm) of
                       Inl e \<Rightarrow> 0
                     | Inr text \<Rightarrow> int (assignment_line_count text))
   \<and> pure_functions (foldl (functional_step fs) functional_start files) =
     pure_function_count fs files"
proof (induction files rule: rev_induct)
  case Nil
  show ?case by (simp add: functional_start_def pure_function_count_def)
next
  case (snoc fm files)
  have c: "counted_pure fs (files @ [fm]) (length files) =
        (case read_text fs (path fm) of
           Inl e \<Rightarrow> False
         | Inr text \<Rightarrow>
             (\<Sum>f\<leftarrow>files. case read_text fs (path f) of
                              Inl e \<Rightarrow> 0
                            | Inr text \<Rightarrow> int (assignment_line_count text))
               + int (assignment_line_count text) = 0 \<and>
             \<not> calls_print text)"
    by (simp add: counted_pure_def assignments_so_far_def split: sum.splits)
  show ?case
    using snoc
    by (auto simp: functional_step_fields pure_function_count_snoc c split: sum.splits)
qed

lemma purity_score_eq:
  "purity_score n t =
     Inr (if n \<noteq> 0 then to_double (of_int (pure_functions t) / of_int n) else 0)"
  by (simp add: purity_score_def float_div_def true_div_def)

lemma hof_score_eq:
  "hof_score n t = Inr (min 1 (to_double (of_int (higher_order_count t) / of_int (max 1 n))))"
  by (simp add: hof_score_def float_div_def true_div_def max_def)

lemma immutability_score_eq:
  "immutability_score t =
     Inr (min 1 (to_double
            (of_int (immutable_count t) / of_int (max 1 (total_assignments t + 1)))))"
  by (simp add: immutability_score_def float_div_def true_div_def max_def)

subsection \<open>The open_closed score\<close>

text \<open>
  Claim C1, as amended. When the run has at least one class, the \<open>open_closed\<close> score is
  the number of inheritance matches in the texts of the run's files (a file that cannot
  be re-read counting as empty) divided by the total class count, capped at 1 and rounded
  to three decimals; when the run has no class the score is 1.
\<close>

theorem open_closed_score:
  "\<exists>s. evaluate_solid fs files = Inr s \<and>
       open_closed s =
         (if 0 < sum_list (map num_classes files)
          then round3 (min 1 (to_double
                 (of_int (sum_list (map (\<lambda>fm. count_inheritance (text_or_empty fs (path fm))) files))
                    / of_int (sum_list (map num_classes files)))))
          else 1)"
  by (simp add: evaluate_solid_eq Let_def ocp_score_eq solid_totals_fields)

text \<open>Witness for C1: the text of \<open>Shapes.java\<close> has one inheritance match. With 2 classes
  the score is 0.5, with 3 classes 0.333 (and not the quotient 0.3333333333333333), with
  80 classes 0.013.\<close>

theorem open_closed_score_witness:
  "sum_list (map num_classes shapes_run) = 2
   \<and> sum_list (map (\<lambda>fm. count_inheritance (text_or_empty sample_fs (path fm))) shapes_run) = 1
   \<and> (\<exists>s. evaluate_solid sample_fs shapes_run = Inr s \<and> open_closed s = 1 / 2)
   \<and> (\<exists>s. evaluate_solid sample_fs [one_of_three] = Inr s
            \<and> open_closed s = 5998794703657501 / 18014398509481984)
   \<and> (\<exists>s. evaluate_solid sample_fs [one_of_eighty] = Inr s
            \<and> open_closed s = 7493989779944505 / 576460752303423488)"
proof -
  have c: "sum_list (map num_classes shapes_run) = 2"
    by code_simp
  have i: "sum_list (map (\<lambda>fm. count_inheritance (text_or_empty sample_fs (path fm))) shapes_run) = 1"
    by code_simp
  have r0: "round3 (min 1 (to_double (of_int 1 / of_int 2))) = 1 / 2"
    by code_simp
  have c3: "sum_list (map num_classes [one_of_three]) = 3"
    by (simp add: one_of_three_def)
  have i3: "sum_list (map (\<lambda>fm. count_inheritance (text_or_empty sample_fs (path fm)))
      [one_of_three]) = 1"
    by code_simp
  have r3: "round3 (min 1 (to_double (of_int 1 / of_int 3))) =
      5998794703657501 / 18014398509481984"
    by code_simp
  have c80: "sum_list (map num_classes [one_of_eighty]) = 80"
    by (simp add: one_of_eighty_def)
  have i80: "sum_list (map (\<lambda>fm. count_inheritance (text_or_empty sample_fs (path fm)))
      [one_of_eighty]) = 1"
    by code_simp
  have r80: "round3 (min 1 (to_double (of_int 1 / of_int 80))) =
      7493989779944505 / 576460752303423488"
    by code_simp
  have a: "\<exists>s. evaluate_solid sample_fs shapes_run = Inr s \<and> open_closed s = 1 / 2"
    using open_closed_score [of sample_fs shapes_run] by (simp only: c i r0) simp
  have b: "\<exists>s. evaluate_solid sample_fs [one_of_three] = Inr s
            \<and> open_closed s = 5998794703657501 / 18014398509481984"
    using open_closed_score [of sample_fs "[one_of_three]"] by (simp only: c3 i3 r3) simp
  have d: "\<exists>s. evaluate_solid sample_fs [one_of_eighty] = Inr s
            \<and> open_closed s = 7493989779944505 / 576460752303423488"
    using open_closed_score [of sample_fs "[one_of_eighty]"]
    by (simp only: c80 i80 r80) simp
  show ?thesis using c i a b d by blast
qed

text \<open>
  Claim C1 as stated fails where it says that the score is 0 for a run without classes:
  the run over \<open>proj\<close> has one file and no class, and its \<open>open_closed\<close> score is 1.
\<close>

theorem open_closed_zero_classes_counterexample:
  "sum_list (map num_classes no_class_run) = 0
   \<and> evaluate_solid sample_fs no_class_run =
       Inr \<lparr>single_responsibility = 1, open_closed = 1, interface_segregation = 1,
            dependency_inversion = 0, liskov_substitution = 1 / 2\<rparr>"
  by code_simp

subsection \<open>The single_responsibility score\<close>

text \<open>
  Claim C5 as stated fails where the value has more than three decimals: for 16 functions
  in 3 classes \<open>max(0, 1 - max(0, avg - 5) / 10)\<close> is \<open>29/30\<close> (in floating point
  \<open>0.9666666666666667\<close>, the value of \<open>srp_score\<close>), and the score returned is \<open>0.967\<close>.
\<close>

theorem single_responsibility_rounded_counterexample:
  "sum_list (map num_classes [sixteen_in_three]) = 3
   \<and> sum_list (map num_functions [sixteen_in_three]) = 16
   \<and> max 0 (1 - max 0 (16 / 3 - 5) / 10) = (29 / 30 :: rat)
   \<and> srp_score (foldl (solid_step sample_fs) solid_start [sixteen_in_three]) =
       Inr (8706959279582959 / 9007199254740992)
   \<and> evaluate_solid sample_fs [sixteen_in_three] =
       Inr \<lparr>single_responsibility = 8709961679334539 / 9007199254740992,
            open_closed = 0, interface_segregation = 1,
            dependency_inversion = 0, liskov_substitution = 1 / 2\<rparr>"
  by code_simp

text \<open>
  Claim C5, as amended. When the run has at least one class, the \<open>single_responsibility\<close>
  score is \<open>max(0, 1 - max(0, avg - 5) / 10)\<close>, computed in floating point and rounded to
  three decimals, for \<open>avg\<close> the total number of functions divided by the total number of
  classes; when the run has no class the score is 1. One class with 5 functions scores 1,
  one class with 15 functions scores 0.
\<close>

theorem single_responsibility_score:
  "(\<exists>s. evaluate_solid fs files = Inr s \<and>
       single_responsibility s =
         (if 0 < sum_list (map num_classes files)
          then round3 (max 0 (float_sub 1 (float_quotient
                 (max 0 (float_sub
                    (to_double (of_int (sum_list (map num_functions files))
                                / of_int (sum_list (map num_classes files)))) 5)) 10)))
          else 1))
   \<and> (num_classes fm = 1 \<and> num_functions fm = 5 \<longrightarrow>
        (\<exists>s. evaluate_solid fs [fm] = Inr s \<and> single_responsibility s = 1))
   \<and> (num_classes fm = 1 \<and> num_functions fm = 15 \<longrightarrow>
        (\<exists>s. evaluate_solid fs [fm] = Inr s \<and> single_responsibility s = 0))"
proof (intro conjI impI)
  show "\<exists>s. evaluate_solid fs files = Inr s \<and>
       single_responsibility s =
         (if 0 < sum_list (map num_classes files)
          then round3 (max 0 (float_sub 1 (float_quotient
                 (max 0 (float_sub
                    (to_double (of_int (sum_list (map num_functions files))
                                / of_int (sum_list (map num_classes files)))) 5)) 10)))
          else 1)"
    by (rule srp_closed_form)
next
  assume "num_classes fm = 1 \<and> num_functions fm = 5"
  then show "\<exists>s. evaluate_solid fs [fm] = Inr s \<and> single_responsibility s = 1"
    using srp_closed_form [of fs "[fm]"]
    by (simp add: float_sub_def float_quotient_def to_double_5 to_double_1 to_double_def [of 0])
next
  assume "num_classes fm = 1 \<and> num_functions fm = 15"
  then show "\<exists>s. evaluate_solid fs [fm] = Inr s \<and> single_responsibility s = 0"
    using srp_closed_form [of fs "[fm]"]
    by (simp add: float_sub_def float_quotient_def to_double_15 to_double_10 to_double_1
        to_double_def [of 0])
qed

text \<open>Witness for C5: a record with one class and 5 functions, one with one class and 15
  functions, both together (avg 10, score 0.5), 43 functions in 8 classes (the value
  0.9625 is a decimal tie; the double computed lies above it and the score is 0.963), and
  a run without classes.\<close>

theorem single_responsibility_score_witness:
  "num_classes five_methods = 1 \<and> num_functions five_methods = 5
   \<and> (\<exists>s. evaluate_solid sample_fs [five_methods] = Inr s \<and> single_responsibility s = 1)
   \<and> num_classes fifteen_methods = 1 \<and> num_functions fifteen_methods = 15
   \<and> (\<exists>s. evaluate_solid sample_fs [fifteen_methods] = Inr s \<and> single_responsibility s = 0)
   \<and> (\<exists>s. evaluate_solid sample_fs [five_methods, fifteen_methods] = Inr s
            \<and> single_responsibility s = 1 / 2)
   \<and> (\<exists>s. evaluate_solid sample_fs [forty_three_in_eight] = Inr s
            \<and> single_responsibility s = 8673932882315575 / 9007199254740992)
   \<and> (\<exists>s. evaluate_solid sample_fs no_class_run = Inr s \<and> single_responsibility s = 1)"
proof -
  have a: "num_classes five_methods = 1 \<and> num_functions five_methods = 5"
    by (simp add: five_methods_def)
  have b: "num_classes fifteen_methods = 1 \<and> num_functions fifteen_methods = 15"
    by (simp add: fifteen_methods_def)
  have s2: "sum_list (map num_classes [five_methods, fifteen_methods]) = 2"
      "sum_list (map num_functions [five_methods, fifteen_methods]) = 20"
    using a b by simp_all
  have r2: "round3 (max 0 (float_sub 1 (float_quotient
      (max 0 (float_sub (to_double (of_int 20 / of_int 2)) 5)) 10))) = 1 / 2"
    by code_simp
  have s8: "sum_list (map num_classes [forty_three_in_eight]) = 8"
      "sum_list (map num_functions [forty_three_in_eight]) = 43"
    by (simp_all add: forty_three_in_eight_def)
  have r8: "round3 (max 0 (float_sub 1 (float_quotient
      (max 0 (float_sub (to_double (of_int 43 / of_int 8)) 5)) 10))) =
      8673932882315575 / 9007199254740992"
    by code_simp
  note t = single_responsibility_score
  have c: "\<exists>s. evaluate_solid sample_fs [five_methods, fifteen_methods] = Inr s
            \<and> single_responsibility s = 1 / 2"
    using t [of sample_fs "[five_methods, fifteen_methods]" five_methods, THEN conjunct1]
    by (simp only: s2 r2) simp
  have e: "\<exists>s. evaluate_solid sample_fs [forty_three_in_eight] = Inr s
            \<and> single_responsibility s = 8673932882315575 / 9007199254740992"
    using t [of sample_fs "[forty_three_in_eight]" five_methods, THEN conjunct1]
    by (simp only: s8 r8) simp
  have d: "\<exists>s. evaluate_solid sample_fs no_class_run = Inr s \<and> single_responsibility s = 1"
    using t [of sample_fs no_class_run five_methods, THEN conjunct1]
    by (simp add: no_class_run_eq)
  show ?thesis
    using a b c d e
      t [of sample_fs "[]" five_methods, THEN conjunct2, THEN conjunct1, THEN mp, OF a]
      t [of sample_fs "[]" fifteen_methods, THEN conjunct2, THEN conjunct2, THEN mp, OF b]
    by blast
qed

subsection \<open>The range of the scores\<close>

text \<open>
  Rounding keeps a value of the unit interval in it. Every score of \<open>evaluate_solid\<close> but
  \<open>dependency_inversion\<close> lies between 0 and 1, and so does every score of
  \<open>evaluate_functional\<close> when no record has a negative number of functions (the scanner
  never produces one).
\<close>

lemma sum_list_int_nonneg: "(\<And>x. x \<in> set xs \<Longrightarrow> 0 \<le> f x) \<Longrightarrow> (0::int) \<le> sum_list (map f xs)"
  by (induction xs) auto

lemma count_nonneg [simp]:
  "0 \<le> count_inheritance text" "0 \<le> count_interface_methods text"
  "0 \<le> count_abstract_imports text" "0 \<le> count_assignments text"
  by (simp_all add: count_inheritance_def count_interface_methods_def
      count_abstract_imports_def count_assignments_def sum_list_int_nonneg)

lemma unit_penalty:
  "0 \<le> max 0 (float_sub 1 (float_quotient (max 0 y) 10))
   \<and> max 0 (float_sub 1 (float_quotient (max 0 y) 10)) \<le> 1"
proof -
  have "0 \<le> float_quotient (max 0 y) 10"
    by (simp add: float_quotient_def to_double_nonneg)
  then have "float_sub 1 (float_quotient (max 0 y) 10) \<le> 1"
    by (simp add: float_sub_def to_double_le_one)
  then show ?thesis by simp
qed

lemma unit_ratio:
  fixes a b :: rat
  assumes "0 \<le> a" "0 < b"
  shows "0 \<le> min 1 (to_double (a / b)) \<and> min 1 (to_double (a / b)) \<le> 1"
  using assms by (simp add: to_double_nonneg)

lemma imports_foldl_nonneg: "0 \<le> n \<Longrightarrow> 0 \<le> foldl (imports_step fs) n files"
  by (induction files arbitrary: n) (auto simp: imports_step_def split: sum.splits)

lemma solid_scores_range:
  assumes "evaluate_solid fs files = Inr s"
  shows "0 \<le> single_responsibility s \<and> single_responsibility s \<le> 1
       \<and> 0 \<le> open_closed s \<and> open_closed s \<le> 1
       \<and> 0 \<le> interface_segregation s \<and> interface_segregation s \<le> 1
       \<and> 0 \<le> dependency_inversion s
       \<and> liskov_substitution s = 1 / 2"
proof -
  define t where "t = foldl (solid_step fs) solid_start files"
  define n where "n = foldl (imports_step fs) 0 files"
  have s: "s = \<lparr>single_responsibility = round3 (projr (srp_score t)),
           open_closed = round3 (projr (ocp_score t)),
           interface_segregation = round3 (projr (isp_score t)),
           dependency_inversion = round3 (projr (dip_score t n)),
           liskov_substitution = 1 / 2\<rparr>"
    using assms by (simp add: evaluate_solid_eq Let_def t_def n_def)
  have n0: "0 \<le> n" by (simp add: n_def imports_foldl_nonneg)
  have c0: "0 \<le> classes_with_inheritance t"
    by (simp add: t_def solid_foldl solid_start_def sum_list_int_nonneg)
  have u0: "0 \<le> uses_abstract_in_imports t"
    by (simp add: t_def solid_foldl solid_start_def sum_list_int_nonneg)
  have srp: "0 \<le> round3 (projr (srp_score t)) \<and> round3 (projr (srp_score t)) \<le> 1"
    using unit_penalty by (auto simp: srp_score_eq intro!: round3_unit)
  have isp: "0 \<le> round3 (projr (isp_score t)) \<and> round3 (projr (isp_score t)) \<le> 1"
    using unit_penalty by (auto simp: isp_score_eq intro!: round3_unit)
  have ocp: "0 \<le> round3 (projr (ocp_score t)) \<and> round3 (projr (ocp_score t)) \<le> 1"
  proof (cases "0 < total_classes t")
    case True
    have "0 \<le> min 1 (to_double
            (rat_of_int (classes_with_inheritance t) / rat_of_int (total_classes t)))
        \<and> min 1 (to_double
            (rat_of_int (classes_with_inheritance t) / rat_of_int (total_classes t))) \<le> 1"
      using c0 True by (intro unit_ratio) simp_all
    then show ?thesis using True by (simp add: ocp_score_eq round3_unit)
  next
    case False
    then show ?thesis by (simp add: ocp_score_eq round3_unit)
  qed
  have dip: "0 \<le> round3 (projr (dip_score t n))"
    using n0 u0 by (auto simp: dip_score_eq intro!: round3_nonneg to_double_nonneg)
  show ?thesis using srp isp ocp dip by (simp add: s)
qed

lemma functional_step_nonneg:
  assumes "0 \<le> higher_order_count t \<and> 0 \<le> immutable_count t \<and> 0 \<le> total_assignments t"
  shows "0 \<le> higher_order_count (functional_step fs t fm)
       \<and> 0 \<le> immutable_count (functional_step fs t fm)
       \<and> 0 \<le> total_assignments (functional_step fs t fm)"
  using assms by (auto simp: functional_step_def Let_def split: sum.splits)

lemma functional_foldl_nonneg:
  assumes "0 \<le> higher_order_count t \<and> 0 \<le> immutable_count t \<and> 0 \<le> total_assignments t"
  shows "0 \<le> higher_order_count (foldl (functional_step fs) t files)
       \<and> 0 \<le> immutable_count (foldl (functional_step fs) t files)
       \<and> 0 \<le> total_assignments (foldl (functional_step fs) t files)"
  using assms
proof (induction files arbitrary: t)
  case Nil
  then show ?case by simp
next
  case (Cons fm files)
  show ?case using Cons.IH [OF functional_step_nonneg [OF Cons.prems]] by simp
qed

lemma pure_function_count_bounds:
  assumes "\<forall>fm \<in> set files. 0 \<le> num_functions fm"
  shows "0 \<le> pure_function_count fs files
       \<and> pure_function_count fs files \<le> sum_list (map num_functions files)"
proof -
  have nn: "0 \<le> num_functions (files ! i)" if "i < length files" for i
    using assms that by simp
  have a: "pure_function_count fs files \<le>
          sum_list (map (\<lambda>i. num_functions (files ! i)) [0..<length files])"
    unfolding pure_function_count_def
    by (rule sum_list_mono) (auto simp: nn)
  have "map (\<lambda>i. num_functions (files ! i)) [0..<length files] = map num_functions files"
    by (rule nth_equalityI) simp_all
  then have b: "sum_list (map (\<lambda>i. num_functions (files ! i)) [0..<length files]) =
      sum_list (map num_functions files)"
    by (rule arg_cong)
  have c: "0 \<le> pure_function_count fs files"
    unfolding pure_function_count_def by (rule sum_list_int_nonneg) (auto simp: nn)
  show ?thesis using a b c by linarith
qed

lemma functional_scores_range:
  assumes "evaluate_functional fs files = Inr s"
    and "\<forall>fm \<in> set files. 0 \<le> num_functions fm"
  shows "0 \<le> purity s \<and> purity s \<le> 1
       \<and> 0 \<le> higher_order_usage s \<and> higher_order_usage s \<le> 1
       \<and> 0 \<le> immutability s \<and> immutability s \<le> 1"
proof -
  define t where "t = foldl (functional_step fs) functional_start files"
  define n where "n = sum_list (map num_functions files)"
  have s: "s = \<lparr>purity = round3 (projr (purity_score n t)),
                higher_order_usage = round3 (projr (hof_score n t)),
                immutability = round3 (projr (immutability_score t))\<rparr>"
    using assms(1)
    by (simp add: evaluate_functional_def Let_def purity_score_eq hof_score_eq
        immutability_score_eq t_def n_def)
  have nn: "0 \<le> higher_order_count t \<and> 0 \<le> immutable_count t \<and> 0 \<le> total_assignments t"
    unfolding t_def by (rule functional_foldl_nonneg) (simp add: functional_start_def)
  have pf: "pure_functions t = pure_function_count fs files"
    by (simp add: t_def functional_foldl)
  have pb: "0 \<le> pure_functions t \<and> pure_functions t \<le> n"
    using pure_function_count_bounds [OF assms(2), of fs] by (simp add: pf n_def)
  have pur: "0 \<le> round3 (projr (purity_score n t)) \<and> round3 (projr (purity_score n t)) \<le> 1"
  proof (cases "n = 0")
    case True
    then show ?thesis by (simp add: purity_score_eq)
  next
    case False
    then have "0 < n" using pb by simp
    then have "0 \<le> rat_of_int (pure_functions t) / rat_of_int n
             \<and> rat_of_int (pure_functions t) / rat_of_int n \<le> 1"
      using pb by simp
    then have "0 \<le> to_double (rat_of_int (pure_functions t) / rat_of_int n)
             \<and> to_double (rat_of_int (pure_functions t) / rat_of_int n) \<le> 1"
      by (simp add: to_double_nonneg to_double_le_one)
    then show ?thesis using False by (simp add: purity_score_eq round3_unit)
  qed
  have hof: "0 \<le> round3 (projr (hof_score n t)) \<and> round3 (projr (hof_score n t)) \<le> 1"
  proof -
    have "0 \<le> min 1 (to_double (rat_of_int (higher_order_count t) / rat_of_int (max 1 n)))
        \<and> min 1 (to_double (rat_of_int (higher_order_count t) / rat_of_int (max 1 n))) \<le> 1"
      using nn by (intro unit_ratio) simp_all
    then show ?thesis by (simp add: hof_score_eq round3_unit)
  qed
  have imm: "0 \<le> round3 (projr (immutability_score t))
           \<and> round3 (projr (immutability_score t)) \<le> 1"
  proof -
    have "0 \<le> min 1 (to_double (rat_of_int (immutable_count t)
              / rat_of_int (max 1 (total_assignments t + 1))))
        \<and> min 1 (to_double (rat_of_int (immutable_count t)
              / rat_of_int (max 1 (total_assignments t + 1)))) \<le> 1"
      using nn by (intro unit_ratio) simp_all
    then show ?thesis by (simp add: immutability_score_eq round3_unit)
  qed
  show ?thesis using pur hof imm by (simp add: s)
qed

text \<open>
  Claim C6. Every score should lie between 0 and 1. For a file in which a form feed
  separates two import statements that mention \<open>abstract\<close>, \<open>splitlines\<close> sees two
  abstraction-mentioning import lines, the file iterator of the second loop sees one
  import line, and \<open>dependency_inversion\<close> is 2. (The other scores are in range, see
  \<open>solid_scores_range\<close> and \<open>functional_scores_range\<close>.)
\<close>

theorem dependency_inversion_above_one:
  "formfeed_run =
     [\<lparr>path = ''lib/a.py'', num_functions = 0, num_classes = 0, num_interfaces = 0,
       cyclomatic_complexity = 1, complexity_category = ''Simple'', line_count = 1,
       comment_count = 0, long_line_count = 0, mixed_indent = False,
       language = ''python'', additional_info = []\<rparr>]
   \<and> evaluate_solid sample_fs formfeed_run =
       Inr \<lparr>single_responsibility = 1, open_closed = 1, interface_segregation = 1,
            dependency_inversion = 2, liskov_substitution = 1 / 2\<rparr>"
  by code_simp

subsection \<open>The purity score\<close>

text \<open>
  Claim C2 as stated fails in two places. The functions of a file that cannot be re-read
  are not counted as pure although the cumulative assignment count is zero and there is no
  print or log call to be found: the run with the record of the removed file
  \<open>proj/gone.py\<close> (2 functions) has purity 0, not 1. And the score is rounded: with one
  pure function among three (\<open>pure.py\<close>, then \<open>state.py\<close> with an assignment) the quotient
  is \<open>0.3333333333333333\<close> and the score returned is \<open>0.333\<close>.
\<close>

theorem purity_unreadable_and_rounded_counterexample:
  "sample_fs (path gone_file) = Inl FileNotFound
   \<and> num_functions gone_file = 2
   \<and> assignments_so_far sample_fs [gone_file] 0 = 0
   \<and> \<not> calls_print (text_or_empty sample_fs (path gone_file))
   \<and> evaluate_functional sample_fs [gone_file] =
       Inr \<lparr>purity = 0, higher_order_usage = 0, immutability = 0\<rparr>
   \<and> map path pure_then_state = [''proj/pure.py'', ''proj/state.py'']
   \<and> map num_functions pure_then_state = [1, 2]
   \<and> pure_function_count sample_fs pure_then_state = 1
   \<and> to_double (1 / 3) = 6004799503160661 / 18014398509481984
   \<and> evaluate_functional sample_fs pure_then_state =
       Inr \<lparr>purity = 5998794703657501 / 18014398509481984,
            higher_order_usage = 0, immutability = 0\<rparr>"
  by code_simp

text \<open>
  Claim C2, as amended. The functions of a file are counted as pure exactly when the file
  can be re-read and, at the moment it is processed, the cumulative assignment count
  (its own lines included) is zero and its text has no print or log call. The purity score
  is the number of functions so counted divided by the total number of functions of the
  run, rounded to three decimals, and 0 when the run has no function.
\<close>

theorem purity_score_order_dependent:
  "\<exists>s. evaluate_functional fs files = Inr s \<and>
       purity s =
         (if sum_list (map num_functions files) \<noteq> 0
          then round3 (to_double (of_int (pure_function_count fs files)
                                   / of_int (sum_list (map num_functions files))))
          else 0)"
  by (simp add: evaluate_functional_def Let_def purity_score_eq hof_score_eq
      immutability_score_eq functional_foldl)

text \<open>Witness for C2: the same two files in both orders (with the assignment-free file
  first its function is pure and the score is 1, after the file with an assignment it is
  not and the score is 0); a file with a print call (score 0); one pure function among
  three (score 0.333).\<close>

theorem purity_score_order_dependent_witness:
  "map path (analyse_directory sample_fs pure_first ''proj'' None) = [''proj/pure.py'', ''proj/a.py'']
   \<and> pure_function_count sample_fs (analyse_directory sample_fs pure_first ''proj'' None) = 1
   \<and> (\<exists>s. evaluate_functional sample_fs (analyse_directory sample_fs pure_first ''proj'' None) = Inr s
            \<and> purity s = 1)
   \<and> map path (analyse_directory sample_fs pure_last ''proj'' None) = [''proj/a.py'', ''proj/pure.py'']
   \<and> pure_function_count sample_fs (analyse_directory sample_fs pure_last ''proj'' None) = 0
   \<and> (\<exists>s. evaluate_functional sample_fs (analyse_directory sample_fs pure_last ''proj'' None) = Inr s
            \<and> purity s = 0)
   \<and> calls_print (text_or_empty sample_fs ''proj/hello.py'')
   \<and> sum_list (map num_functions hello_run) = 2
   \<and> (\<exists>s. evaluate_functional sample_fs hello_run = Inr s \<and> purity s = 0)
   \<and> (\<exists>s. evaluate_functional sample_fs pure_then_state = Inr s
            \<and> purity s = 5998794703657501 / 18014398509481984)"
proof -
  have a: "map path (analyse_directory sample_fs pure_first ''proj'' None) = [''proj/pure.py'', ''proj/a.py'']"
    by code_simp
  have b: "map path (analyse_directory sample_fs pure_last ''proj'' None) = [''proj/a.py'', ''proj/pure.py'']"
    by code_simp
  have c: "pure_function_count sample_fs (analyse_directory sample_fs pure_first ''proj'' None) = 1"
    by code_simp
  have d: "pure_function_count sample_fs (analyse_directory sample_fs pure_last ''proj'' None) = 0"
    by code_simp
  have e: "sum_list (map num_functions (analyse_directory sample_fs pure_first ''proj'' None)) = 1"
    by code_simp
  have f: "sum_list (map num_functions (analyse_directory sample_fs pure_last ''proj'' None)) = 1"
    by code_simp
  have g: "calls_print (text_or_empty sample_fs ''proj/hello.py'')"
    by code_simp
  have h: "sum_list (map num_functions hello_run) = 2"
    by code_simp
  have i: "pure_function_count sample_fs hello_run = 0"
    by code_simp
  have j: "sum_list (map num_functions pure_then_state) = 3"
    by code_simp
  have k: "pure_function_count sample_fs pure_then_state = 1"
    by code_simp
  have r1: "round3 (to_double (of_int 1 / of_int 1)) = 1"
    by code_simp
  have r0: "round3 (to_double (of_int 0 / of_int 1)) = 0"
    by code_simp
  have r02: "round3 (to_double (of_int 0 / of_int 2)) = 0"
    by code_simp
  have r3: "round3 (to_double (of_int 1 / of_int 3)) = 5998794703657501 / 18014398509481984"
    by code_simp
  note t = purity_score_order_dependent
  have w1: "\<exists>s. evaluate_functional sample_fs (analyse_directory sample_fs pure_first ''proj'' None) = Inr s
            \<and> purity s = 1"
    using t [of sample_fs "analyse_directory sample_fs pure_first ''proj'' None"]
    by (simp only: c e r1) simp
  have w2: "\<exists>s. evaluate_functional sample_fs (analyse_directory sample_fs pure_last ''proj'' None) = Inr s
            \<and> purity s = 0"
    using t [of sample_fs "analyse_directory sample_fs pure_last ''proj'' None"]
    by (simp only: d f r0) simp
  have w3: "\<exists>s. evaluate_functional sample_fs hello_run = Inr s \<and> purity s = 0"
    using t [of sample_fs hello_run]
    by (simp only: h i r02) simp
  have w4: "\<exists>s. evaluate_functional sample_fs pure_then_state = Inr s
            \<and> purity s = 5998794703657501 / 18014398509481984"
    using t [of sample_fs pure_then_state]
    by (simp only: j k r3) simp
  show ?thesis using a b c d g h w1 w2 w3 w4 by blast
qed

end
